theory Spec2Isabelle
  imports Main
begin

section \<open>Edge resistance for move/resize operations (edge-resistance.c)\<close>

text \<open>
  A shallow embedding of \<^verbatim>\<open>src/edge-resistance.c\<close>. C \<^verbatim>\<open>int\<close> values (pixel
  coordinates, array indices) are integers, and the sums and differences the code takes of
  them are the mathematical ones: they stay within the 32 bits of \<^verbatim>\<open>int\<close> for pixel
  coordinates, which X11 keeps within 16 bits. The one product of two coordinate
  differences, in \<^verbatim>\<open>points_on_same_side\<close>, can leave the 32 bits for such coordinates,
  and is taken with the wrap-around of two's-complement arithmetic. A read of
  a \<^verbatim>\<open>GArray\<close> outside \<^verbatim>\<open>0 .. len - 1\<close> is undefined behaviour in C as well
  (\<^verbatim>\<open>g_array_index\<close> is an unchecked macro); the model makes it the error value
  \<open>OutOfBounds\<close>, so every such read is a visible branch.
\<close>

subsection \<open>Data model\<close>

datatype error = OutOfBounds | AssertionFailed

text \<open>
  Modelled from the spec: \<^verbatim>\<open>MetaRectangle\<close> is declared in boxes.h, which is not among the
  sources. Fields \<^verbatim>\<open>x, y, width, height\<close>; they carry the prefix \<open>rect_\<close> here.
\<close>

record MetaRectangle =
  rect_x :: int
  rect_y :: int
  rect_width :: int
  rect_height :: int

datatype MetaDirection =
  META_DIRECTION_LEFT | META_DIRECTION_RIGHT | META_DIRECTION_TOP | META_DIRECTION_BOTTOM

datatype MetaEdgeType = META_EDGE_WINDOW | META_EDGE_XINERAMA | META_EDGE_SCREEN

text \<open>
  Modelled from the spec: \<^verbatim>\<open>MetaEdge\<close> (boxes.h): the span rectangle, the side and the
  class of an edge.
\<close>

record MetaEdge =
  rect :: MetaRectangle
  side_type :: MetaDirection
  edge_type :: MetaEdgeType

text \<open>
  Modelled from the spec: the rectangle helpers of boxes.h/boxes.c. An edge is aligned with
  the moving rectangle when their extents on the perpendicular axis overlap.
\<close>

definition BOX_LEFT :: "MetaRectangle \<Rightarrow> int" where
  "BOX_LEFT box = rect_x box"

definition BOX_RIGHT :: "MetaRectangle \<Rightarrow> int" where
  "BOX_RIGHT box = rect_x box + rect_width box"

definition BOX_TOP :: "MetaRectangle \<Rightarrow> int" where
  "BOX_TOP box = rect_y box"

definition BOX_BOTTOM :: "MetaRectangle \<Rightarrow> int" where
  "BOX_BOTTOM box = rect_y box + rect_height box"

definition meta_rect :: "int \<Rightarrow> int \<Rightarrow> int \<Rightarrow> int \<Rightarrow> MetaRectangle" where
  "meta_rect px py w h = \<lparr>rect_x = px, rect_y = py, rect_width = w, rect_height = h\<rparr>"

definition meta_rectangle_horiz_overlap :: "MetaRectangle \<Rightarrow> MetaRectangle \<Rightarrow> bool" where
  "meta_rectangle_horiz_overlap rect1 rect2 =
     (rect_x rect1 < rect_x rect2 + rect_width rect2 \<and>
      rect_x rect2 < rect_x rect1 + rect_width rect1)"

definition meta_rectangle_vert_overlap :: "MetaRectangle \<Rightarrow> MetaRectangle \<Rightarrow> bool" where
  "meta_rectangle_vert_overlap rect1 rect2 =
     (rect_y rect1 < rect_y rect2 + rect_height rect2 \<and>
      rect_y rect2 < rect_y rect1 + rect_height rect1)"

subsection \<open>Arrays of edges\<close>

text \<open>\<^verbatim>\<open>g_array_index (edges, MetaEdge*, i)\<close>, with the out-of-range read made explicit.\<close>

definition g_array_index :: "MetaEdge list \<Rightarrow> int \<Rightarrow> error + MetaEdge" where
  "g_array_index edges i =
     (if 0 \<le> i \<and> i < int (length edges) then Inr (edges ! nat i) else Inl OutOfBounds)"

text \<open>\<^verbatim>\<open>horizontal ? edge->rect.x : edge->rect.y\<close>\<close>

definition edge_coord :: "bool \<Rightarrow> MetaEdge \<Rightarrow> int" where
  "edge_coord horizontal edge = (if horizontal then rect_x (rect edge) else rect_y (rect edge))"

text \<open>
  \<^verbatim>\<open>horizontal ? meta_rectangle_vert_overlap (&edge->rect, new_rect)
             : meta_rectangle_horiz_overlap (&edge->rect, new_rect)\<close>
\<close>

definition edges_align :: "bool \<Rightarrow> MetaEdge \<Rightarrow> MetaRectangle \<Rightarrow> bool" where
  "edges_align horizontal edge new_rect =
     (if horizontal then meta_rectangle_vert_overlap (rect edge) new_rect
      else meta_rectangle_horiz_overlap (rect edge) new_rect)"

subsection \<open>find_index_of_edge_near_position\<close>

text \<open>
  The binary search loop \<^verbatim>\<open>while (low < high)\<close>, which find_index_of_edge_near_position
  and find_nearest_position both contain verbatim. The state is \<open>(low, high, mid, compare)\<close>;
  the loop leaves \<open>mid\<close> and \<open>compare\<close> behind. \<open>high - low\<close> is positive
  where it is halved, so \<open>div\<close> is C's division there.
\<close>

function binary_search_loop ::
  "MetaEdge list \<Rightarrow> int \<Rightarrow> bool \<Rightarrow> int \<Rightarrow> int \<Rightarrow> int \<Rightarrow> int \<Rightarrow> error + (int \<times> int)" where
  "binary_search_loop edges position horizontal low high mid compare =
     (if low < high then
        (case g_array_index edges (low + (high - low) div 2) of
           Inl e \<Rightarrow> Inl e
         | Inr edge \<Rightarrow>
             if edge_coord horizontal edge = position
             then Inr (low + (high - low) div 2, edge_coord horizontal edge)
             else if edge_coord horizontal edge > position
             then binary_search_loop edges position horizontal
                    low (low + (high - low) div 2 - 1)
                    (low + (high - low) div 2) (edge_coord horizontal edge)
             else binary_search_loop edges position horizontal
                    (low + (high - low) div 2 + 1) high
                    (low + (high - low) div 2) (edge_coord horizontal edge))
      else Inr (mid, compare))"
  by pat_completeness auto
termination
  by (relation "measure (\<lambda>(edges, position, horizontal, low, high, mid, compare).
        nat (high - low))") auto

declare binary_search_loop.simps [simp del]

text \<open>
  The prologue shared by both searches: \<^verbatim>\<open>mid = 0; edge = g_array_index (edges, ..., mid);
  compare = ...; low = 0; high = edges->len - 1;\<close> and then the loop. The first read
  happens whatever the length is.
\<close>

definition binary_search :: "MetaEdge list \<Rightarrow> int \<Rightarrow> bool \<Rightarrow> error + (int \<times> int)" where
  "binary_search edges position horizontal =
     (case g_array_index edges 0 of
        Inl e \<Rightarrow> Inl e
      | Inr edge \<Rightarrow>
          binary_search_loop edges position horizontal
            0 (int (length edges) - 1) 0 (edge_coord horizontal edge))"

text \<open>
  The linear corrections. \<open>walk_down\<close> is
  \<^verbatim>\<open>while (c (compare, position) && mid > 0) { mid--; edge = ...; compare = ...; }\<close> and
  \<open>walk_up\<close> is
  \<^verbatim>\<open>while (c (compare, position) && mid < (int)edges->len - 1) { mid++; ... }\<close>,
  for the comparison \<open>c\<close> of the loop at hand.
\<close>

function walk_down ::
  "(int \<Rightarrow> int \<Rightarrow> bool) \<Rightarrow> MetaEdge list \<Rightarrow> int \<Rightarrow> bool \<Rightarrow> int \<Rightarrow> int \<Rightarrow> error + (int \<times> int)" where
  "walk_down c edges position horizontal mid compare =
     (if c compare position \<and> mid > 0 then
        (case g_array_index edges (mid - 1) of
           Inl e \<Rightarrow> Inl e
         | Inr edge \<Rightarrow>
             walk_down c edges position horizontal (mid - 1) (edge_coord horizontal edge))
      else Inr (mid, compare))"
  by pat_completeness auto
termination
  by (relation "measure (\<lambda>(c, edges, position, horizontal, mid, compare). nat mid)") auto

declare walk_down.simps [simp del]

function walk_up ::
  "(int \<Rightarrow> int \<Rightarrow> bool) \<Rightarrow> MetaEdge list \<Rightarrow> int \<Rightarrow> bool \<Rightarrow> int \<Rightarrow> int \<Rightarrow> error + (int \<times> int)" where
  "walk_up c edges position horizontal mid compare =
     (if c compare position \<and> mid < int (length edges) - 1 then
        (case g_array_index edges (mid + 1) of
           Inl e \<Rightarrow> Inl e
         | Inr edge \<Rightarrow>
             walk_up c edges position horizontal (mid + 1) (edge_coord horizontal edge))
      else Inr (mid, compare))"
  by pat_completeness auto
termination
  by (relation "measure (\<lambda>(c, edges, position, horizontal, mid, compare).
        nat (int (length edges) - mid))") auto

declare walk_up.simps [simp del]

definition find_index_of_edge_near_position ::
  "MetaEdge list \<Rightarrow> int \<Rightarrow> bool \<Rightarrow> bool \<Rightarrow> error + int" where
  "find_index_of_edge_near_position edges position want_interval_min horizontal =
     (case binary_search edges position horizontal of
        Inl e \<Rightarrow> Inl e
      | Inr (mid0, compare0) \<Rightarrow>
          if want_interval_min then
            (case walk_down (\<lambda>c p. c \<ge> p) edges position horizontal mid0 compare0 of
               Inl e \<Rightarrow> Inl e
             | Inr (mid1, compare1) \<Rightarrow>
                 (case walk_up (\<lambda>c p. c < p) edges position horizontal mid1 compare1 of
                    Inl e \<Rightarrow> Inl e
                  | Inr (mid2, compare2) \<Rightarrow>
                      if compare2 < position then Inr (int (length edges)) else Inr mid2))
          else
            (case walk_up (\<lambda>c p. c \<le> p) edges position horizontal mid0 compare0 of
               Inl e \<Rightarrow> Inl e
             | Inr (mid1, compare1) \<Rightarrow>
                 (case walk_down (\<lambda>c p. c > p) edges position horizontal mid1 compare1 of
                    Inl e \<Rightarrow> Inl e
                  | Inr (mid2, compare2) \<Rightarrow>
                      if compare2 > position then Inr (- 1) else Inr mid2)))"

subsection \<open>find_nearest_position\<close>

definition INT_MAX :: int where
  "INT_MAX = 2147483647"

text \<open>
  The value of a 32-bit \<^verbatim>\<open>int\<close> that holds the low 32 bits of \<open>v\<close> in two's
  complement: what a difference or a product of two \<^verbatim>\<open>int\<close>s is in the compiled code.
\<close>

definition int32_wrap :: "int \<Rightarrow> int" where
  "int32_wrap v = (v + 2147483648) mod 4294967296 - 2147483648"

text \<open>
  \<^verbatim>\<open>return (pt1 - ref) * (pt2 - ref) > 0;\<close> The product of two differences of
  16-bit coordinates can exceed \<open>INT_MAX\<close> (50000 * 50001 does); its sign is then the
  sign of the wrapped value.
\<close>

definition points_on_same_side :: "int \<Rightarrow> int \<Rightarrow> int \<Rightarrow> bool" where
  "points_on_same_side ref pt1 pt2 =
     (int32_wrap (int32_wrap (pt1 - ref) * int32_wrap (pt2 - ref)) > 0)"

text \<open>
  The test each of the three scans applies to an edge:
  \<^verbatim>\<open>edges_align && (!only_forward || !points_on_same_side (position, compare, old_position))\<close>
\<close>

definition nearest_candidate ::
  "int \<Rightarrow> int \<Rightarrow> MetaRectangle \<Rightarrow> bool \<Rightarrow> bool \<Rightarrow> MetaEdge \<Rightarrow> bool" where
  "nearest_candidate position old_position new_rect horizontal only_forward edge =
     (edges_align horizontal edge new_rect \<and>
      (\<not> only_forward \<or>
       \<not> points_on_same_side position (edge_coord horizontal edge) old_position))"

text \<open>
  \<^verbatim>\<open>int dist = ABS (compare - position);
  if (dist < best_dist) { best = compare; best_dist = dist; }\<close>
\<close>

definition update_best :: "int \<Rightarrow> int \<Rightarrow> int \<Rightarrow> int \<Rightarrow> int \<times> int" where
  "update_best position compare best best_dist =
     (if \<bar>compare - position\<bar> < best_dist then (compare, \<bar>compare - position\<bar>)
      else (best, best_dist))"

text \<open>\<^verbatim>\<open>for (i = mid + 1; i < (int)edges->len; i++)\<close>, left at the first candidate.\<close>

function scan_higher ::
  "MetaEdge list \<Rightarrow> int \<Rightarrow> int \<Rightarrow> MetaRectangle \<Rightarrow> bool \<Rightarrow> bool \<Rightarrow> int \<Rightarrow> int \<Rightarrow> int \<Rightarrow>
   error + (int \<times> int)" where
  "scan_higher edges position old_position new_rect horizontal only_forward i best best_dist =
     (if i < int (length edges) then
        (case g_array_index edges i of
           Inl e \<Rightarrow> Inl e
         | Inr edge \<Rightarrow>
             if nearest_candidate position old_position new_rect horizontal only_forward edge
             then Inr (update_best position (edge_coord horizontal edge) best best_dist)
             else scan_higher edges position old_position new_rect horizontal only_forward
                    (i + 1) best best_dist)
      else Inr (best, best_dist))"
  by pat_completeness auto
termination
  by (relation "measure (\<lambda>(edges, position, old_position, new_rect, horizontal, only_forward,
        i, best, best_dist). nat (int (length edges) - i))") auto

declare scan_higher.simps [simp del]

text \<open>\<^verbatim>\<open>for (i = mid - 1; i >= 0; i--)\<close>, left at the first candidate.\<close>

function scan_lower ::
  "MetaEdge list \<Rightarrow> int \<Rightarrow> int \<Rightarrow> MetaRectangle \<Rightarrow> bool \<Rightarrow> bool \<Rightarrow> int \<Rightarrow> int \<Rightarrow> int \<Rightarrow>
   error + (int \<times> int)" where
  "scan_lower edges position old_position new_rect horizontal only_forward i best best_dist =
     (if i \<ge> 0 then
        (case g_array_index edges i of
           Inl e \<Rightarrow> Inl e
         | Inr edge \<Rightarrow>
             if nearest_candidate position old_position new_rect horizontal only_forward edge
             then Inr (update_best position (edge_coord horizontal edge) best best_dist)
             else scan_lower edges position old_position new_rect horizontal only_forward
                    (i - 1) best best_dist)
      else Inr (best, best_dist))"
  by pat_completeness auto
termination
  by (relation "measure (\<lambda>(edges, position, old_position, new_rect, horizontal, only_forward,
        i, best, best_dist). nat (i + 1))") auto

declare scan_lower.simps [simp del]

definition find_nearest_position ::
  "MetaEdge list \<Rightarrow> int \<Rightarrow> int \<Rightarrow> MetaRectangle \<Rightarrow> bool \<Rightarrow> bool \<Rightarrow> error + int" where
  "find_nearest_position edges position old_position new_rect horizontal only_forward =
     (case binary_search edges position horizontal of
        Inl e \<Rightarrow> Inl e
      | Inr (mid, compare0) \<Rightarrow>
          (case g_array_index edges mid of
             Inl e \<Rightarrow> Inl e
           | Inr edge \<Rightarrow>
               (case (if nearest_candidate position old_position new_rect horizontal
                          only_forward edge
                      then update_best position (edge_coord horizontal edge) old_position INT_MAX
                      else (old_position, INT_MAX)) of
                  (best0, best_dist0) \<Rightarrow>
                    (case scan_higher edges position old_position new_rect horizontal
                            only_forward (mid + 1) best0 best_dist0 of
                       Inl e \<Rightarrow> Inl e
                     | Inr (best1, best_dist1) \<Rightarrow>
                         (case scan_lower edges position old_position new_rect horizontal
                                 only_forward (mid - 1) best1 best_dist1 of
                            Inl e \<Rightarrow> Inl e
                          | Inr (best2, best_dist2) \<Rightarrow> Inr best2)))))"

subsection \<open>Resistance state and the timers of the main loop\<close>

definition movement_towards_edge :: "MetaDirection \<Rightarrow> int \<Rightarrow> bool" where
  "movement_towards_edge side increment =
     (case side of
        META_DIRECTION_LEFT \<Rightarrow> increment < 0
      | META_DIRECTION_TOP \<Rightarrow> increment < 0
      | META_DIRECTION_RIGHT \<Rightarrow> increment > 0
      | META_DIRECTION_BOTTOM \<Rightarrow> increment > 0)"

text \<open>
  Modelled from the spec: \<^verbatim>\<open>MetaWindow\<close> is declared in window.h, which is not among the
  sources. The record holds what edge-resistance.c reads of a window: its identity (pointer
  comparisons compare \<open>xwindow\<close>), its type and screen, the results of
  \<^verbatim>\<open>meta_window_should_be_showing\<close> and \<^verbatim>\<open>meta_window_get_outer_rect\<close>, and the two
  constraint flags.
\<close>

datatype MetaWindowType =
  META_WINDOW_NORMAL | META_WINDOW_DESKTOP | META_WINDOW_DOCK | META_WINDOW_DIALOG
  | META_WINDOW_MODAL_DIALOG | META_WINDOW_TOOLBAR | META_WINDOW_MENU | META_WINDOW_UTILITY
  | META_WINDOW_SPLASHSCREEN

record MetaWindow =
  xwindow :: nat
  window_type :: MetaWindowType
  screen :: nat
  should_be_showing :: bool
  outer_rect :: MetaRectangle
  require_on_single_xinerama :: bool
  require_fully_onscreen :: bool

text \<open>
  \<^verbatim>\<open>struct ResistanceDataForAnEdge\<close>. \<open>timeout_func\<close> is the address of the grab
  driver's callback.
\<close>

record ResistanceDataForAnEdge =
  timeout_setup :: bool
  timeout_id :: nat
  timeout_edge_pos :: int
  timeout_over :: bool
  timeout_func :: nat
  window :: MetaWindow
  keyboard_buildup :: int
  allow_past_screen_edge :: bool

text \<open>
  The four \<^verbatim>\<open>ResistanceDataForAnEdge\<close> members of \<^verbatim>\<open>struct MetaEdgeResistanceData\<close>;
  a pointer to one of them is the \<^verbatim>\<open>data\<close> argument of a timeout source.
\<close>

datatype ResistanceDataPtr = LEFT_DATA | RIGHT_DATA | TOP_DATA | BOTTOM_DATA

text \<open>
  GLib's main loop, as far as this file uses it: the pending timeout sources, each with its
  id, interval and data pointer. \<^verbatim>\<open>g_timeout_add\<close> hands out a fresh non-zero id;
  \<^verbatim>\<open>g_source_remove\<close> drops the source with the given id.
\<close>

record GSource =
  source_id :: nat
  source_interval :: int
  source_data :: ResistanceDataPtr

record GMainContext =
  next_source_id :: nat
  sources :: "GSource list"

definition g_timeout_add :: "int \<Rightarrow> ResistanceDataPtr \<Rightarrow> GMainContext \<Rightarrow> nat \<times> GMainContext" where
  "g_timeout_add interval data ctx =
     (next_source_id ctx,
      ctx\<lparr>next_source_id := next_source_id ctx + 1,
          sources := sources ctx @
            [\<lparr>source_id = next_source_id ctx, source_interval = interval, source_data = data\<rparr>]\<rparr>)"

definition g_source_remove :: "nat \<Rightarrow> GMainContext \<Rightarrow> GMainContext" where
  "g_source_remove tag ctx = ctx\<lparr>sources := filter (\<lambda>s. source_id s \<noteq> tag) (sources ctx)\<rparr>"

text \<open>
  \<^verbatim>\<open>edge_resistance_timeout\<close>: the fields it writes. The call of
  \<^verbatim>\<open>(*resistance_data->timeout_func)(resistance_data->window)\<close> belongs to the grab driver.
\<close>

definition edge_resistance_timeout :: "ResistanceDataForAnEdge \<Rightarrow> ResistanceDataForAnEdge" where
  "edge_resistance_timeout resistance_data =
     resistance_data\<lparr>timeout_over := True, timeout_id := 0\<rparr>"

subsection \<open>apply_edge_resistance\<close>

definition G_MAXINT :: int where "G_MAXINT = 2147483647"

definition PIXEL_DISTANCE_THRESHOLD_TOWARDS_WINDOW :: int where
  "PIXEL_DISTANCE_THRESHOLD_TOWARDS_WINDOW = 16"
definition PIXEL_DISTANCE_THRESHOLD_AWAYFROM_WINDOW :: int where
  "PIXEL_DISTANCE_THRESHOLD_AWAYFROM_WINDOW = 8"
definition PIXEL_DISTANCE_THRESHOLD_TOWARDS_XINERAMA :: int where
  "PIXEL_DISTANCE_THRESHOLD_TOWARDS_XINERAMA = 32"
definition PIXEL_DISTANCE_THRESHOLD_AWAYFROM_XINERAMA :: int where
  "PIXEL_DISTANCE_THRESHOLD_AWAYFROM_XINERAMA = 8"
definition PIXEL_DISTANCE_THRESHOLD_TOWARDS_SCREEN :: int where
  "PIXEL_DISTANCE_THRESHOLD_TOWARDS_SCREEN = 32"
definition PIXEL_DISTANCE_THRESHOLD_AWAYFROM_SCREEN :: int where
  "PIXEL_DISTANCE_THRESHOLD_AWAYFROM_SCREEN = 8"
definition TIMEOUT_RESISTANCE_LENGTH_MS_WINDOW :: int where
  "TIMEOUT_RESISTANCE_LENGTH_MS_WINDOW = 0"
definition TIMEOUT_RESISTANCE_LENGTH_MS_XINERAMA :: int where
  "TIMEOUT_RESISTANCE_LENGTH_MS_XINERAMA = 100"
definition TIMEOUT_RESISTANCE_LENGTH_MS_SCREEN :: int where
  "TIMEOUT_RESISTANCE_LENGTH_MS_SCREEN = 750"
definition KEYBOARD_BUILDUP_THRESHOLD_TOWARDS_WINDOW :: int where
  "KEYBOARD_BUILDUP_THRESHOLD_TOWARDS_WINDOW = 16"
definition KEYBOARD_BUILDUP_THRESHOLD_AWAYFROM_WINDOW :: int where
  "KEYBOARD_BUILDUP_THRESHOLD_AWAYFROM_WINDOW = 16"
definition KEYBOARD_BUILDUP_THRESHOLD_TOWARDS_XINERAMA :: int where
  "KEYBOARD_BUILDUP_THRESHOLD_TOWARDS_XINERAMA = 24"
definition KEYBOARD_BUILDUP_THRESHOLD_AWAYFROM_XINERAMA :: int where
  "KEYBOARD_BUILDUP_THRESHOLD_AWAYFROM_XINERAMA = 16"
definition KEYBOARD_BUILDUP_THRESHOLD_TOWARDS_SCREEN :: int where
  "KEYBOARD_BUILDUP_THRESHOLD_TOWARDS_SCREEN = 32"
definition KEYBOARD_BUILDUP_THRESHOLD_AWAYFROM_SCREEN :: int where
  "KEYBOARD_BUILDUP_THRESHOLD_AWAYFROM_SCREEN = 16"

text \<open>The three \<^verbatim>\<open>switch (edge->edge_type)\<close> tables of the loop body.\<close>

definition keyboard_resistance :: "MetaEdge \<Rightarrow> int \<Rightarrow> int" where
  "keyboard_resistance edge increment =
     (case edge_type edge of
        META_EDGE_WINDOW \<Rightarrow>
          if movement_towards_edge (side_type edge) increment
          then KEYBOARD_BUILDUP_THRESHOLD_TOWARDS_WINDOW
          else KEYBOARD_BUILDUP_THRESHOLD_AWAYFROM_WINDOW
      | META_EDGE_XINERAMA \<Rightarrow>
          if movement_towards_edge (side_type edge) increment
          then KEYBOARD_BUILDUP_THRESHOLD_TOWARDS_XINERAMA
          else KEYBOARD_BUILDUP_THRESHOLD_AWAYFROM_XINERAMA
      | META_EDGE_SCREEN \<Rightarrow>
          if movement_towards_edge (side_type edge) increment
          then KEYBOARD_BUILDUP_THRESHOLD_TOWARDS_SCREEN
          else KEYBOARD_BUILDUP_THRESHOLD_AWAYFROM_SCREEN)"

definition timeout_length_ms :: "MetaWindow \<Rightarrow> MetaEdge \<Rightarrow> int" where
  "timeout_length_ms win edge =
     (case edge_type edge of
        META_EDGE_WINDOW \<Rightarrow> TIMEOUT_RESISTANCE_LENGTH_MS_WINDOW
      | META_EDGE_XINERAMA \<Rightarrow>
          if require_on_single_xinerama win then TIMEOUT_RESISTANCE_LENGTH_MS_XINERAMA else 0
      | META_EDGE_SCREEN \<Rightarrow>
          if require_fully_onscreen win then TIMEOUT_RESISTANCE_LENGTH_MS_SCREEN else 0)"

definition pixel_threshold :: "MetaEdge \<Rightarrow> int \<Rightarrow> int" where
  "pixel_threshold edge increment =
     (case edge_type edge of
        META_EDGE_WINDOW \<Rightarrow>
          if movement_towards_edge (side_type edge) increment
          then PIXEL_DISTANCE_THRESHOLD_TOWARDS_WINDOW
          else PIXEL_DISTANCE_THRESHOLD_AWAYFROM_WINDOW
      | META_EDGE_XINERAMA \<Rightarrow>
          if movement_towards_edge (side_type edge) increment
          then PIXEL_DISTANCE_THRESHOLD_TOWARDS_XINERAMA
          else PIXEL_DISTANCE_THRESHOLD_AWAYFROM_XINERAMA
      | META_EDGE_SCREEN \<Rightarrow>
          if movement_towards_edge (side_type edge) increment
          then PIXEL_DISTANCE_THRESHOLD_TOWARDS_SCREEN
          else PIXEL_DISTANCE_THRESHOLD_AWAYFROM_SCREEN)"

text \<open>
  One pass through the body of the loop over the edges moved past, for an edge that is
  aligned: either the function returns (\<open>Return\<close>: the value, the resistance data and
  the main loop as the return leaves them) or the loop goes on to the next edge
  (\<open>Next_edge\<close>: \<^verbatim>\<open>okay_to_clear_keyboard_buildup\<close>, \<^verbatim>\<open>keyboard_buildup_edge\<close>, the
  resistance data and the main loop).
\<close>

datatype edge_outcome =
  Return int ResistanceDataForAnEdge GMainContext
  | Next_edge bool int ResistanceDataForAnEdge GMainContext

definition keyboard_edge ::
  "MetaEdge \<Rightarrow> int \<Rightarrow> int \<Rightarrow> int \<Rightarrow> bool \<Rightarrow> int \<Rightarrow> ResistanceDataForAnEdge \<Rightarrow> GMainContext \<Rightarrow>
   edge_outcome" where
  "keyboard_edge edge compare new_pos increment okay_to_clear_keyboard_buildup
     keyboard_buildup_edge resistance_data ctx =
     (let clear = okay_to_clear_keyboard_buildup \<and> compare \<noteq> keyboard_buildup_edge;
          okay1 = (if clear then False else okay_to_clear_keyboard_buildup);
          rd1 = (if clear then resistance_data\<lparr>keyboard_buildup := 0\<rparr> else resistance_data);
          threshold = keyboard_resistance edge increment - keyboard_buildup rd1
      in if \<bar>compare - new_pos\<bar> < threshold then
           Return compare
             (if keyboard_buildup rd1 \<noteq> 0
              then rd1\<lparr>keyboard_buildup := keyboard_buildup rd1 + \<bar>new_pos - compare\<bar>\<rparr>
              else rd1\<lparr>keyboard_buildup := 1\<rparr>)
             ctx
         else Next_edge True compare rd1 ctx)"

definition mouse_edge ::
  "MetaWindow \<Rightarrow> MetaEdge \<Rightarrow> int \<Rightarrow> int \<Rightarrow> int \<Rightarrow> ResistanceDataPtr \<Rightarrow> nat \<Rightarrow> bool \<Rightarrow> int \<Rightarrow>
   ResistanceDataForAnEdge \<Rightarrow> GMainContext \<Rightarrow> edge_outcome" where
  "mouse_edge win edge compare new_pos increment ptr timeout_fn okay_to_clear_keyboard_buildup
     keyboard_buildup_edge resistance_data ctx =
     (if edge_type edge = META_EDGE_SCREEN \<and> \<not> allow_past_screen_edge resistance_data \<and>
         movement_towards_edge (side_type edge) increment
      then Return compare resistance_data ctx
      else
        (case (if movement_towards_edge (side_type edge) increment \<and>
                  \<not> timeout_setup resistance_data \<and> timeout_length_ms win edge \<noteq> 0
               then (case g_timeout_add (timeout_length_ms win edge) ptr ctx of
                       (tag, ctx1) \<Rightarrow>
                         (resistance_data\<lparr>timeout_id := tag, timeout_setup := True,
                            timeout_edge_pos := compare, timeout_over := False,
                            timeout_func := timeout_fn, window := win\<rparr>, ctx1))
               else (resistance_data, ctx)) of
           (rd1, ctx1) \<Rightarrow>
             if movement_towards_edge (side_type edge) increment \<and>
                \<not> timeout_over rd1 \<and> timeout_length_ms win edge \<noteq> 0
             then Return compare rd1 ctx1
             else if \<bar>compare - new_pos\<bar> < pixel_threshold edge increment
             then Return compare rd1 ctx1
             else Next_edge okay_to_clear_keyboard_buildup keyboard_buildup_edge rd1 ctx1))"

text \<open>
  The loop \<^verbatim>\<open>while ((increasing && i <= end) || (!increasing && i >= end))\<close> with the
  code after it.
\<close>

function apply_edge_resistance_loop ::
  "MetaWindow \<Rightarrow> int \<Rightarrow> MetaRectangle \<Rightarrow> MetaEdge list \<Rightarrow> ResistanceDataPtr \<Rightarrow> nat \<Rightarrow> bool \<Rightarrow>
   bool \<Rightarrow> bool \<Rightarrow> int \<Rightarrow> int \<Rightarrow> bool \<Rightarrow> int \<Rightarrow> ResistanceDataForAnEdge \<Rightarrow> GMainContext \<Rightarrow>
   error + (int \<times> ResistanceDataForAnEdge \<times> GMainContext)" where
  "apply_edge_resistance_loop win new_pos new_rect edges ptr timeout_fn xdir keyboard_op
     increasing end_index i okay_to_clear_keyboard_buildup keyboard_buildup_edge
     resistance_data ctx =
     (if (increasing \<and> i \<le> end_index) \<or> (\<not> increasing \<and> i \<ge> end_index) then
        (case g_array_index edges i of
           Inl e \<Rightarrow> Inl e
         | Inr edge \<Rightarrow>
             if \<not> edges_align xdir edge new_rect then
               apply_edge_resistance_loop win new_pos new_rect edges ptr timeout_fn xdir
                 keyboard_op increasing end_index (i + (if increasing then 1 else - 1))
                 okay_to_clear_keyboard_buildup keyboard_buildup_edge resistance_data ctx
             else
               (case (if keyboard_op
                      then keyboard_edge edge (edge_coord xdir edge) new_pos
                             (if increasing then 1 else - 1) okay_to_clear_keyboard_buildup
                             keyboard_buildup_edge resistance_data ctx
                      else mouse_edge win edge (edge_coord xdir edge) new_pos
                             (if increasing then 1 else - 1) ptr timeout_fn
                             okay_to_clear_keyboard_buildup keyboard_buildup_edge
                             resistance_data ctx) of
                  Return v rd1 ctx1 \<Rightarrow> Inr (v, rd1, ctx1)
                | Next_edge okay1 edge1 rd1 ctx1 \<Rightarrow>
                    apply_edge_resistance_loop win new_pos new_rect edges ptr timeout_fn xdir
                      keyboard_op increasing end_index (i + (if increasing then 1 else - 1))
                      okay1 edge1 rd1 ctx1))
      else
        Inr (new_pos,
             (if okay_to_clear_keyboard_buildup \<and> new_pos \<noteq> keyboard_buildup_edge
              then resistance_data\<lparr>keyboard_buildup := 0\<rparr> else resistance_data),
             ctx))"
  by pat_completeness auto
termination
  by (relation "measure (\<lambda>(win, new_pos, new_rect, edges, ptr, timeout_fn, xdir, keyboard_op,
        increasing, end_index, i, okay, kbe, rd, ctx).
        if increasing then nat (end_index + 1 - i) else nat (i + 1 - end_index))") auto

declare apply_edge_resistance_loop.simps [simp del]

text \<open>\<^verbatim>\<open>/* Remove the old timeout if it's no longer relevant */\<close>\<close>

definition remove_old_timeout ::
  "int \<Rightarrow> int \<Rightarrow> ResistanceDataForAnEdge \<Rightarrow> GMainContext \<Rightarrow>
   ResistanceDataForAnEdge \<times> GMainContext" where
  "remove_old_timeout old_pos new_pos resistance_data ctx =
     (if timeout_setup resistance_data \<and>
         ((timeout_edge_pos resistance_data > old_pos \<and>
           timeout_edge_pos resistance_data > new_pos) \<or>
          (timeout_edge_pos resistance_data < old_pos \<and>
           timeout_edge_pos resistance_data < new_pos))
      then
        (if timeout_id resistance_data \<noteq> 0
         then (resistance_data\<lparr>timeout_setup := False, timeout_id := 0\<rparr>,
               g_source_remove (timeout_id resistance_data) ctx)
         else (resistance_data\<lparr>timeout_setup := False\<rparr>, ctx))
      else (resistance_data, ctx))"

definition apply_edge_resistance ::
  "MetaWindow \<Rightarrow> int \<Rightarrow> int \<Rightarrow> MetaRectangle \<Rightarrow> MetaEdge list \<Rightarrow> ResistanceDataPtr \<Rightarrow>
   ResistanceDataForAnEdge \<Rightarrow> nat \<Rightarrow> bool \<Rightarrow> bool \<Rightarrow> GMainContext \<Rightarrow>
   error + (int \<times> ResistanceDataForAnEdge \<times> GMainContext)" where
  "apply_edge_resistance win old_pos new_pos new_rect edges ptr resistance_data timeout_fn
     xdir keyboard_op ctx =
     (if old_pos = new_pos then Inr (new_pos, resistance_data, ctx)
      else
        (case remove_old_timeout old_pos new_pos resistance_data ctx of
           (rd0, ctx0) \<Rightarrow>
             (case find_index_of_edge_near_position edges old_pos (new_pos > old_pos) xdir of
                Inl e \<Rightarrow> Inl e
              | Inr begin_index \<Rightarrow>
                  (case find_index_of_edge_near_position edges new_pos
                          (\<not> new_pos > old_pos) xdir of
                     Inl e \<Rightarrow> Inl e
                   | Inr end_index \<Rightarrow>
                       apply_edge_resistance_loop win new_pos new_rect edges ptr timeout_fn
                         xdir keyboard_op (new_pos > old_pos) end_index begin_index
                         False G_MAXINT rd0 ctx0))))"

subsection \<open>apply_edge_snapping\<close>

definition apply_edge_snapping ::
  "int \<Rightarrow> int \<Rightarrow> MetaRectangle \<Rightarrow> MetaEdge list \<Rightarrow> MetaEdge list \<Rightarrow> bool \<Rightarrow> bool \<Rightarrow> error + int" where
  "apply_edge_snapping old_pos new_pos new_rect edges1 edges2 xdir keyboard_op =
     (if old_pos = new_pos then Inr new_pos
      else
        (case find_nearest_position edges1 new_pos old_pos new_rect xdir keyboard_op of
           Inl e \<Rightarrow> Inl e
         | Inr pos1 \<Rightarrow>
             (case find_nearest_position edges2 new_pos old_pos new_rect xdir keyboard_op of
                Inl e \<Rightarrow> Inl e
              | Inr pos2 \<Rightarrow>
                  if keyboard_op \<and> \<not> points_on_same_side old_pos pos1 new_pos then Inr pos2
                  else if keyboard_op \<and> \<not> points_on_same_side old_pos pos2 new_pos then Inr pos1
                  else
                    (let best = (if \<bar>pos1 - new_pos\<bar> < \<bar>pos2 - new_pos\<bar> then pos1 else pos2)
                     in if \<not> keyboard_op \<and> \<bar>best - old_pos\<bar> \<ge> 8 \<and> \<bar>new_pos - old_pos\<bar> < 8
                        then Inr old_pos
                        else Inr best))))"

subsection \<open>apply_edge_resistance_to_each_side\<close>

record MetaEdgeResistanceData =
  left_edges :: "MetaEdge list"
  right_edges :: "MetaEdge list"
  top_edges :: "MetaEdge list"
  bottom_edges :: "MetaEdge list"
  left_data :: ResistanceDataForAnEdge
  right_data :: ResistanceDataForAnEdge
  top_data :: ResistanceDataForAnEdge
  bottom_data :: ResistanceDataForAnEdge

text \<open>Modelled from the spec: \<^verbatim>\<open>meta_rectangle_equal\<close> of boxes.c.\<close>

definition meta_rectangle_equal :: "MetaRectangle \<Rightarrow> MetaRectangle \<Rightarrow> bool" where
  "meta_rectangle_equal src1 src2 =
     (rect_x src1 = rect_x src2 \<and> rect_y src1 = rect_y src2 \<and>
      rect_width src1 = rect_width src2 \<and> rect_height src1 = rect_height src2)"

text \<open>
  The end of the function: \<^verbatim>\<open>modified_rect = meta_rect (...); modified = ...;
  *new_outer = modified_rect; return modified;\<close>. The result is \<open>(modified, new_outer)\<close>.
\<close>

definition save_changes :: "MetaRectangle \<Rightarrow> int \<Rightarrow> int \<Rightarrow> int \<Rightarrow> int \<Rightarrow> bool \<times> MetaRectangle" where
  "save_changes new_outer new_left new_right new_top new_bottom =
     (\<not> meta_rectangle_equal new_outer
          (meta_rect new_left new_top (new_right - new_left) (new_bottom - new_top)),
      meta_rect new_left new_top (new_right - new_left) (new_bottom - new_top))"

text \<open>
  \<open>grab_data\<close> is \<^verbatim>\<open>display->grab_edge_resistance_data\<close>, \<open>None\<close> for \<^verbatim>\<open>NULL\<close>.
  The result is \<open>(modified, new_outer)\<close> with the resistance data and the main loop as
  the call leaves them.
\<close>

definition apply_edge_resistance_to_each_side ::
  "MetaEdgeResistanceData option \<Rightarrow> MetaWindow \<Rightarrow> MetaRectangle \<Rightarrow> MetaRectangle \<Rightarrow> nat \<Rightarrow>
   bool \<Rightarrow> bool \<Rightarrow> GMainContext \<Rightarrow>
   error + ((bool \<times> MetaRectangle) \<times> MetaEdgeResistanceData \<times> GMainContext)" where
  "apply_edge_resistance_to_each_side grab_data win old_outer new_outer timeout_fn auto_snap
     keyboard_op ctx =
     (case grab_data of
        None \<Rightarrow> Inl AssertionFailed
      | Some edge_data \<Rightarrow>
          if auto_snap then
            (case apply_edge_snapping (BOX_LEFT old_outer) (BOX_LEFT new_outer) new_outer
                    (left_edges edge_data) (right_edges edge_data) True keyboard_op of
               Inl e \<Rightarrow> Inl e
             | Inr new_left \<Rightarrow>
            (case apply_edge_snapping (BOX_RIGHT old_outer) (BOX_RIGHT new_outer) new_outer
                    (left_edges edge_data) (right_edges edge_data) True keyboard_op of
               Inl e \<Rightarrow> Inl e
             | Inr new_right \<Rightarrow>
            (case apply_edge_snapping (BOX_TOP old_outer) (BOX_TOP new_outer) new_outer
                    (top_edges edge_data) (bottom_edges edge_data) False keyboard_op of
               Inl e \<Rightarrow> Inl e
             | Inr new_top \<Rightarrow>
            (case apply_edge_snapping (BOX_BOTTOM old_outer) (BOX_BOTTOM new_outer) new_outer
                    (top_edges edge_data) (bottom_edges edge_data) False keyboard_op of
               Inl e \<Rightarrow> Inl e
             | Inr new_bottom \<Rightarrow>
                 Inr (save_changes new_outer new_left new_right new_top new_bottom,
                      edge_data, ctx)))))
          else
            (case apply_edge_resistance win (BOX_LEFT old_outer) (BOX_LEFT new_outer) new_outer
                    (left_edges edge_data) LEFT_DATA (left_data edge_data) timeout_fn True
                    keyboard_op ctx of
               Inl e \<Rightarrow> Inl e
             | Inr (new_left, ld, ctx1) \<Rightarrow>
            (case apply_edge_resistance win (BOX_RIGHT old_outer) (BOX_RIGHT new_outer) new_outer
                    (right_edges edge_data) RIGHT_DATA (right_data edge_data) timeout_fn True
                    keyboard_op ctx1 of
               Inl e \<Rightarrow> Inl e
             | Inr (new_right, rd, ctx2) \<Rightarrow>
            (case apply_edge_resistance win (BOX_TOP old_outer) (BOX_TOP new_outer) new_outer
                    (top_edges edge_data) TOP_DATA (top_data edge_data) timeout_fn False
                    keyboard_op ctx2 of
               Inl e \<Rightarrow> Inl e
             | Inr (new_top, td, ctx3) \<Rightarrow>
            (case apply_edge_resistance win (BOX_BOTTOM old_outer) (BOX_BOTTOM new_outer)
                    new_outer (bottom_edges edge_data) BOTTOM_DATA (bottom_data edge_data)
                    timeout_fn False keyboard_op ctx3 of
               Inl e \<Rightarrow> Inl e
             | Inr (new_bottom, bd, ctx4) \<Rightarrow>
                 Inr (save_changes new_outer new_left new_right new_top new_bottom,
                      edge_data\<lparr>left_data := ld, right_data := rd, top_data := td,
                        bottom_data := bd\<rparr>,
                      ctx4))))))"

subsection \<open>The display, and the entry point for a move\<close>

text \<open>
  Modelled from the spec: \<^verbatim>\<open>MetaScreen\<close> and \<^verbatim>\<open>MetaDisplay\<close> are declared in screen.h
  and display.h, which are not among the sources. The records hold what edge-resistance.c
  reads and writes: for the screen its identity, its rectangle,
  the result of \<^verbatim>\<open>meta_stack_list_windows\<close> for the active workspace (bottom to top) and
  the active workspace's two edge lists; for the display the fields of the grab.
\<close>

record MetaScreen =
  screen_number :: nat
  screen_rect :: MetaRectangle
  stack_list_windows :: "MetaWindow list"
  xinerama_edges :: "MetaEdge list"
  screen_edges :: "MetaEdge list"

record MetaDisplay =
  grab_screen :: MetaScreen
  grab_window :: MetaWindow
  grab_wireframe_active :: bool
  grab_wireframe_rect :: MetaRectangle
  grab_anchor_root_y :: int
  grab_initial_window_pos :: MetaRectangle
  grab_last_user_action_was_snap :: bool
  grab_edge_resistance_data :: "MetaEdgeResistanceData option"

text \<open>
  The choice among the two changes of an axis, as the \<^verbatim>\<open>if\<close> chain of
  meta_window_edge_resistance_for_move makes it for \<^verbatim>\<open>smaller_x_change\<close> and
  \<^verbatim>\<open>smaller_y_change\<close>.
\<close>

definition smaller_change :: "bool \<Rightarrow> bool \<Rightarrow> int \<Rightarrow> int \<Rightarrow> int" where
  "smaller_change snap is_keyboard_op change1 change2 =
     (if snap \<and> is_keyboard_op \<and> change1 = 0 then change2
      else if snap \<and> is_keyboard_op \<and> change2 = 0 then change1
      else if \<bar>change1\<bar> < \<bar>change2\<bar> then change1
      else change2)"

text \<open>
  \<open>xor_rect\<close> stands for \<^verbatim>\<open>meta_window_get_xor_rect\<close> (window.c, not among the
  sources). The result is \<open>(new_x, new_y)\<close> with the display and the main loop as the
  call leaves them.
\<close>

definition meta_window_edge_resistance_for_move ::
  "(MetaWindow \<Rightarrow> MetaRectangle \<Rightarrow> MetaRectangle) \<Rightarrow> MetaDisplay \<Rightarrow> MetaWindow \<Rightarrow>
   int \<Rightarrow> int \<Rightarrow> int \<Rightarrow> int \<Rightarrow> nat \<Rightarrow> bool \<Rightarrow> bool \<Rightarrow> GMainContext \<Rightarrow>
   error + ((int \<times> int) \<times> MetaDisplay \<times> GMainContext)" where
  "meta_window_edge_resistance_for_move xor_rect display win old_x old_y new_x new_y timeout_fn
     snap is_keyboard_op ctx =
     (let old_outer =
            (if xwindow win = xwindow (grab_window display) \<and> grab_wireframe_active display
             then xor_rect win (grab_wireframe_rect display)
             else outer_rect win);
          proposed_outer =
            old_outer\<lparr>rect_x := rect_x old_outer + (new_x - old_x),
                       rect_y := rect_y old_outer + (new_y - old_y)\<rparr>
      in case apply_edge_resistance_to_each_side (grab_edge_resistance_data display) win
                old_outer proposed_outer timeout_fn snap is_keyboard_op ctx of
           Inl e \<Rightarrow> Inl e
         | Inr ((modified, new_outer), edge_data, ctx1) \<Rightarrow>
             (let display1 = display\<lparr>grab_last_user_action_was_snap := snap,
                                      grab_edge_resistance_data := Some edge_data\<rparr>;
                  reference = (if snap \<and> \<not> is_keyboard_op then proposed_outer else old_outer)
              in if modified then
                   Inr ((old_x +
                           smaller_change snap is_keyboard_op
                             (BOX_LEFT new_outer - BOX_LEFT reference)
                             (BOX_RIGHT new_outer - BOX_RIGHT reference) +
                           (BOX_LEFT reference - BOX_LEFT old_outer),
                         old_y +
                           smaller_change snap is_keyboard_op
                             (BOX_TOP new_outer - BOX_TOP reference)
                             (BOX_BOTTOM new_outer - BOX_BOTTOM reference) +
                           (BOX_TOP reference - BOX_TOP old_outer)),
                        display1, ctx1)
                 else Inr ((new_x, new_y), display1, ctx1)))"

subsection \<open>The start of a grab\<close>

definition initialize_grab_edge_resistance_data ::
  "MetaDisplay \<Rightarrow> MetaEdgeResistanceData \<Rightarrow> MetaEdgeResistanceData" where
  "initialize_grab_edge_resistance_data display edge_data =
     edge_data
       \<lparr>left_data := (left_data edge_data)
          \<lparr>timeout_setup := False, keyboard_buildup := 0, allow_past_screen_edge := True\<rparr>,
        right_data := (right_data edge_data)
          \<lparr>timeout_setup := False, keyboard_buildup := 0, allow_past_screen_edge := True\<rparr>,
        top_data := (top_data edge_data)
          \<lparr>timeout_setup := False, keyboard_buildup := 0,
           allow_past_screen_edge :=
             (grab_anchor_root_y display \<ge> rect_y (grab_initial_window_pos display))\<rparr>,
        bottom_data := (bottom_data edge_data)
          \<lparr>timeout_setup := False, keyboard_buildup := 0, allow_past_screen_edge := True\<rparr>\<rparr>"

definition WINDOW_EDGES_RELEVANT :: "MetaWindow \<Rightarrow> MetaDisplay \<Rightarrow> bool" where
  "WINDOW_EDGES_RELEVANT win display =
     (should_be_showing win \<and>
      screen win = screen_number (grab_screen display) \<and>
      xwindow win \<noteq> xwindow (grab_window display) \<and>
      window_type win \<noteq> META_WINDOW_DESKTOP \<and>
      window_type win \<noteq> META_WINDOW_MENU \<and>
      window_type win \<noteq> META_WINDOW_SPLASHSCREEN)"

text \<open>
  The 2nd step of meta_display_compute_resistance_and_snapping_edges: the rectangles of the
  relevant windows and their stacking positions, prepended as the loop meets them.
\<close>

fun obscuring_loop ::
  "MetaDisplay \<Rightarrow> MetaWindow list \<Rightarrow> int \<Rightarrow> MetaRectangle list \<Rightarrow> int list \<Rightarrow>
   MetaRectangle list \<times> int list" where
  "obscuring_loop display [] stack_position obscuring_windows window_stacking =
     (obscuring_windows, window_stacking)"
| "obscuring_loop display (cur_window # rest) stack_position obscuring_windows window_stacking =
     (if WINDOW_EDGES_RELEVANT cur_window display
      then obscuring_loop display rest (stack_position + 1)
             (outer_rect cur_window # obscuring_windows) (stack_position # window_stacking)
      else obscuring_loop display rest (stack_position + 1) obscuring_windows window_stacking)"

text \<open>
  The four edges a window gives, in the order the four \<^verbatim>\<open>g_list_prepend\<close> calls leave
  them: the one made last comes first.
\<close>

definition window_new_edges :: "MetaRectangle \<Rightarrow> MetaEdge list" where
  "window_new_edges reduced =
     [\<lparr>rect = reduced\<lparr>rect_y := rect_y reduced + rect_height reduced, rect_height := 0\<rparr>,
       side_type = META_DIRECTION_TOP, edge_type = META_EDGE_WINDOW\<rparr>,
      \<lparr>rect = reduced\<lparr>rect_height := 0\<rparr>,
       side_type = META_DIRECTION_BOTTOM, edge_type = META_EDGE_WINDOW\<rparr>,
      \<lparr>rect = reduced\<lparr>rect_x := rect_x reduced + rect_width reduced, rect_width := 0\<rparr>,
       side_type = META_DIRECTION_LEFT, edge_type = META_EDGE_WINDOW\<rparr>,
      \<lparr>rect = reduced\<lparr>rect_width := 0\<rparr>,
       side_type = META_DIRECTION_RIGHT, edge_type = META_EDGE_WINDOW\<rparr>]"

text \<open>
  \<^verbatim>\<open>while (rem_win_stacking && stack_position >= (int)rem_win_stacking->data)\<close>: both
  lists step on together; \<^verbatim>\<open>rem_windows->next\<close> of an empty list is a read through
  \<^verbatim>\<open>NULL\<close>.
\<close>

fun skip_lower_windows ::
  "int \<Rightarrow> MetaRectangle list \<Rightarrow> int list \<Rightarrow> error + (MetaRectangle list \<times> int list)" where
  "skip_lower_windows stack_position rem_windows [] = Inr (rem_windows, [])"
| "skip_lower_windows stack_position rem_windows (p # rem_win_stacking) =
     (if stack_position \<ge> p then
        (case rem_windows of
           [] \<Rightarrow> Inl OutOfBounds
         | r # rem_windows' \<Rightarrow> skip_lower_windows stack_position rem_windows' rem_win_stacking)
      else Inr (rem_windows, p # rem_win_stacking))"

text \<open>
  The 3rd step: the loop that collects the window edges. \<open>intersect\<close> stands for
  \<^verbatim>\<open>meta_rectangle_intersect\<close> (its third argument as the result) and
  \<open>remove_intersections\<close> for
  \<^verbatim>\<open>meta_rectangle_remove_intersections_with_boxes_from_edges\<close>, both of boxes.c and not
  among the sources.
\<close>

fun window_edges_loop ::
  "(MetaRectangle \<Rightarrow> MetaRectangle \<Rightarrow> MetaRectangle) \<Rightarrow>
   (MetaEdge list \<Rightarrow> MetaRectangle list \<Rightarrow> MetaEdge list) \<Rightarrow>
   MetaDisplay \<Rightarrow> MetaWindow list \<Rightarrow> int \<Rightarrow> MetaRectangle list \<Rightarrow> int list \<Rightarrow> MetaEdge list \<Rightarrow>
   error + MetaEdge list" where
  "window_edges_loop intersect remove_intersections display [] stack_position rem_windows
     rem_win_stacking edges = Inr edges"
| "window_edges_loop intersect remove_intersections display (cur_window # rest) stack_position
     rem_windows rem_win_stacking edges =
     (if WINDOW_EDGES_RELEVANT cur_window display \<and> window_type cur_window \<noteq> META_WINDOW_DOCK
      then
        (case skip_lower_windows stack_position rem_windows rem_win_stacking of
           Inl e \<Rightarrow> Inl e
         | Inr (rem_windows', rem_win_stacking') \<Rightarrow>
             window_edges_loop intersect remove_intersections display rest (stack_position + 1)
               rem_windows' rem_win_stacking'
               (remove_intersections
                  (window_new_edges
                     (intersect (outer_rect cur_window) (screen_rect (grab_screen display))))
                  rem_windows' @ edges))
      else window_edges_loop intersect remove_intersections display rest (stack_position + 1)
             rem_windows rem_win_stacking edges)"

text \<open>
  The 1st to 3rd steps of meta_display_compute_resistance_and_snapping_edges: the list
  \<^verbatim>\<open>edges\<close> of window edges, as it stands before it is sorted and cached.
\<close>

definition compute_window_edges ::
  "(MetaRectangle \<Rightarrow> MetaRectangle \<Rightarrow> MetaRectangle) \<Rightarrow>
   (MetaEdge list \<Rightarrow> MetaRectangle list \<Rightarrow> MetaEdge list) \<Rightarrow>
   MetaDisplay \<Rightarrow> error + MetaEdge list" where
  "compute_window_edges intersect remove_intersections display =
     (case obscuring_loop display (stack_list_windows (grab_screen display)) 0 [] [] of
        (obscuring_windows, window_stacking) \<Rightarrow>
          window_edges_loop intersect remove_intersections display
            (stack_list_windows (grab_screen display)) 0
            (rev obscuring_windows) (rev window_stacking) [])"

subsection \<open>A grab as a sequence of events\<close>

text \<open>
  During a grab the resistance data and the main loop change by calls of
  apply_edge_resistance on one of the four sides, with that side's edge array and
  resistance data, and by the main loop dispatching a pending timeout source: it runs
  \<^verbatim>\<open>edge_resistance_timeout\<close> on the source's data and, as the callback returns
  \<^verbatim>\<open>FALSE\<close>, destroys the source.
\<close>

datatype grab_event =
  Resistance_call ResistanceDataPtr MetaWindow int int MetaRectangle nat bool bool
  | Timeout_dispatch nat

definition side_edges :: "ResistanceDataPtr \<Rightarrow> MetaEdgeResistanceData \<Rightarrow> MetaEdge list" where
  "side_edges ptr edge_data =
     (case ptr of LEFT_DATA \<Rightarrow> left_edges edge_data | RIGHT_DATA \<Rightarrow> right_edges edge_data
      | TOP_DATA \<Rightarrow> top_edges edge_data | BOTTOM_DATA \<Rightarrow> bottom_edges edge_data)"

definition side_data :: "ResistanceDataPtr \<Rightarrow> MetaEdgeResistanceData \<Rightarrow> ResistanceDataForAnEdge" where
  "side_data ptr edge_data =
     (case ptr of LEFT_DATA \<Rightarrow> left_data edge_data | RIGHT_DATA \<Rightarrow> right_data edge_data
      | TOP_DATA \<Rightarrow> top_data edge_data | BOTTOM_DATA \<Rightarrow> bottom_data edge_data)"

definition set_side_data ::
  "ResistanceDataPtr \<Rightarrow> ResistanceDataForAnEdge \<Rightarrow> MetaEdgeResistanceData \<Rightarrow>
   MetaEdgeResistanceData" where
  "set_side_data ptr d edge_data =
     (case ptr of LEFT_DATA \<Rightarrow> edge_data\<lparr>left_data := d\<rparr>
      | RIGHT_DATA \<Rightarrow> edge_data\<lparr>right_data := d\<rparr>
      | TOP_DATA \<Rightarrow> edge_data\<lparr>top_data := d\<rparr>
      | BOTTOM_DATA \<Rightarrow> edge_data\<lparr>bottom_data := d\<rparr>)"

definition grab_step ::
  "MetaEdgeResistanceData \<times> GMainContext \<Rightarrow> grab_event \<Rightarrow>
   error + (MetaEdgeResistanceData \<times> GMainContext)" where
  "grab_step st ev =
     (case st of (edge_data, ctx) \<Rightarrow>
        (case ev of
           Resistance_call ptr win old_pos new_pos new_rect timeout_fn xdir keyboard_op \<Rightarrow>
             (case apply_edge_resistance win old_pos new_pos new_rect (side_edges ptr edge_data)
                     ptr (side_data ptr edge_data) timeout_fn xdir keyboard_op ctx of
                Inl e \<Rightarrow> Inl e
              | Inr (v, d, ctx1) \<Rightarrow> Inr (set_side_data ptr d edge_data, ctx1))
         | Timeout_dispatch tag \<Rightarrow>
             (case filter (\<lambda>s. source_id s = tag) (sources ctx) of
                [] \<Rightarrow> Inr (edge_data, ctx)
              | s # ss \<Rightarrow>
                  Inr (set_side_data (source_data s)
                         (edge_resistance_timeout (side_data (source_data s) edge_data))
                         edge_data,
                       g_source_remove tag ctx))))"

fun grab_run ::
  "MetaEdgeResistanceData \<times> GMainContext \<Rightarrow> grab_event list \<Rightarrow>
   error + (MetaEdgeResistanceData \<times> GMainContext)" where
  "grab_run st [] = Inr st"
| "grab_run st (ev # evs) =
     (case grab_step st ev of Inl e \<Rightarrow> Inl e | Inr st1 \<Rightarrow> grab_run st1 evs)"

text \<open>The edge arrays of the cache are sorted by coordinate (cache_edges, 4th step).\<close>

definition edges_sorted :: "bool \<Rightarrow> MetaEdge list \<Rightarrow> bool" where
  "edges_sorted horizontal edges = sorted (map (edge_coord horizontal) edges)"

subsection \<open>Edges for concrete inputs\<close>

text \<open>
  A vertical window edge at \<open>x = p\<close> that spans \<open>y\<close> from 0 to 100, for the left
  and for the right side, and the array of the comment in
  find_index_of_edge_near_position.
\<close>

definition left_window_edge :: "int \<Rightarrow> MetaEdge" where
  "left_window_edge p =
     \<lparr>rect = meta_rect p 0 0 100, side_type = META_DIRECTION_LEFT,
      edge_type = META_EDGE_WINDOW\<rparr>"

definition right_window_edge :: "int \<Rightarrow> MetaEdge" where
  "right_window_edge p =
     \<lparr>rect = meta_rect p 0 0 100, side_type = META_DIRECTION_RIGHT,
      edge_type = META_EDGE_WINDOW\<rparr>"

definition comment_array :: "MetaEdge list" where
  "comment_array = map left_window_edge [3, 27, 316, 316, 316, 505, 522, 800, 1213]"

text \<open>
  A normal window whose outer rectangle is 10 by 10 at (20, 0), resistance data as a grab
  may hold it with no timer set up, a main loop with no pending source, and a cache whose
  left and right arrays each hold one window edge.
\<close>

definition example_window :: MetaWindow where
  "example_window =
     \<lparr>xwindow = 1, window_type = META_WINDOW_NORMAL, screen = 0, should_be_showing = True,
      outer_rect = meta_rect 20 0 10 10, require_on_single_xinerama = True,
      require_fully_onscreen = True\<rparr>"

definition example_data :: ResistanceDataForAnEdge where
  "example_data =
     \<lparr>timeout_setup = False, timeout_id = 0, timeout_edge_pos = 0, timeout_over = False,
      timeout_func = 0, window = example_window, keyboard_buildup = 0,
      allow_past_screen_edge = False\<rparr>"

definition idle_main_loop :: GMainContext where
  "idle_main_loop = \<lparr>next_source_id = 1, sources = []\<rparr>"

definition example_cache :: "int \<Rightarrow> int \<Rightarrow> MetaEdgeResistanceData" where
  "example_cache l r =
     \<lparr>left_edges = [left_window_edge l], right_edges = [right_window_edge r],
      top_edges = [], bottom_edges = [],
      left_data = example_data, right_data = example_data,
      top_data = example_data, bottom_data = example_data\<rparr>"

definition example_display :: "int \<Rightarrow> int \<Rightarrow> MetaDisplay" where
  "example_display l r =
     \<lparr>grab_screen =
        \<lparr>screen_number = 0, screen_rect = meta_rect 0 0 1000 1000, stack_list_windows = [],
         xinerama_edges = [], screen_edges = []\<rparr>,
      grab_window = example_window, grab_wireframe_active = False,
      grab_wireframe_rect = meta_rect 0 0 0 0, grab_anchor_root_y = 0,
      grab_initial_window_pos = meta_rect 20 0 10 10,
      grab_last_user_action_was_snap = False,
      grab_edge_resistance_data = Some (example_cache l r)\<rparr>"

text \<open>
  A screen edge for the right side at \<open>x = p\<close> that spans \<open>y\<close> from \<open>q\<close> to
  \<open>q + 100\<close>.
\<close>

definition right_screen_edge :: "int \<Rightarrow> int \<Rightarrow> MetaEdge" where
  "right_screen_edge p q =
     \<lparr>rect = meta_rect p q 0 100, side_type = META_DIRECTION_RIGHT,
      edge_type = META_EDGE_SCREEN\<rparr>"

subsection \<open>Repeated key presses\<close>


subsection \<open>The window edges, stated without the state of the loops\<close>

text \<open>
  The stacking positions of the relevant windows of a part of the stack that starts at
  position \<open>p\<close>, and the edges the windows of a part of the stack give: each window
  that is relevant and no dock gives its four edges, cut by the rectangles of the relevant
  windows above it; the edges of a higher window come first.
\<close>

fun relevant_positions :: "MetaDisplay \<Rightarrow> MetaWindow list \<Rightarrow> int \<Rightarrow> int list" where
  "relevant_positions display [] p = []"
| "relevant_positions display (w # higher) p =
     (if WINDOW_EDGES_RELEVANT w display then p # relevant_positions display higher (p + 1)
      else relevant_positions display higher (p + 1))"

fun emitted_edges ::
  "(MetaRectangle \<Rightarrow> MetaRectangle \<Rightarrow> MetaRectangle) \<Rightarrow>
   (MetaEdge list \<Rightarrow> MetaRectangle list \<Rightarrow> MetaEdge list) \<Rightarrow>
   MetaDisplay \<Rightarrow> MetaWindow list \<Rightarrow> MetaEdge list" where
  "emitted_edges intersect remove_intersections display [] = []"
| "emitted_edges intersect remove_intersections display (w # higher) =
     emitted_edges intersect remove_intersections display higher @
     (if WINDOW_EDGES_RELEVANT w display \<and> window_type w \<noteq> META_WINDOW_DOCK
      then remove_intersections
             (window_new_edges (intersect (outer_rect w) (screen_rect (grab_screen display))))
             (map outer_rect (filter (\<lambda>v. WINDOW_EDGES_RELEVANT v display) higher))
      else [])"

text \<open>
  A stack for concrete inputs: a desktop window, a normal window, the grabbed window
  (\<open>example_window\<close>), a dock and a menu, bottom to top.
\<close>

definition stacked_window :: "nat \<Rightarrow> MetaWindowType \<Rightarrow> MetaRectangle \<Rightarrow> MetaWindow" where
  "stacked_window n t r =
     \<lparr>xwindow = n, window_type = t, screen = 0, should_be_showing = True, outer_rect = r,
      require_on_single_xinerama = True, require_fully_onscreen = True\<rparr>"

definition example_stack :: "MetaWindow list" where
  "example_stack =
     [stacked_window 2 META_WINDOW_DESKTOP (meta_rect 0 0 1000 1000),
      stacked_window 3 META_WINDOW_NORMAL (meta_rect 100 100 200 200),
      example_window,
      stacked_window 4 META_WINDOW_DOCK (meta_rect 0 0 1000 30),
      stacked_window 5 META_WINDOW_MENU (meta_rect 50 50 60 60)]"

definition stack_display :: MetaDisplay where
  "stack_display =
     (example_display 25 25)
       \<lparr>grab_screen := (grab_screen (example_display 25 25))
          \<lparr>stack_list_windows := example_stack\<rparr>\<rparr>"

subsection \<open>The invariant of the timers\<close>

text \<open>
  What holds of the resistance data of one side and the main loop throughout a grab: the
  ids of the pending sources are positive, below the next id and distinct, and a pending
  source whose data is this side's resistance data is the one the data records
  (\<open>timeout_setup\<close> is set and \<open>timeout_id\<close> is its id), and a set-up timer with
  a non-zero id is pending.
\<close>

definition timer_inv :: "ResistanceDataPtr \<Rightarrow> ResistanceDataForAnEdge \<Rightarrow> GMainContext \<Rightarrow> bool" where
  "timer_inv ptr resistance_data ctx =
     (0 < next_source_id ctx \<and>
      (\<forall>s\<in>set (sources ctx). 0 < source_id s \<and> source_id s < next_source_id ctx) \<and>
      distinct (map source_id (sources ctx)) \<and>
      (\<forall>s\<in>set (sources ctx). source_data s = ptr \<longrightarrow>
         timeout_setup resistance_data \<and> timeout_id resistance_data = source_id s) \<and>
      (timeout_setup resistance_data \<and> timeout_id resistance_data \<noteq> 0 \<longrightarrow>
         (\<exists>s\<in>set (sources ctx).
            source_id s = timeout_id resistance_data \<and> source_data s = ptr)))"

definition other_sources :: "ResistanceDataPtr \<Rightarrow> GMainContext \<Rightarrow> GSource list" where
  "other_sources ptr ctx = filter (\<lambda>s. source_data s \<noteq> ptr) (sources ctx)"

definition grab_inv :: "MetaEdgeResistanceData \<times> GMainContext \<Rightarrow> bool" where
  "grab_inv st = (case st of (edge_data, ctx) \<Rightarrow>
     \<forall>ptr. timer_inv ptr (side_data ptr edge_data) ctx)"

text \<open>
  A cache for concrete inputs whose right array holds one aligned screen edge at 100.
\<close>

definition screen_cache :: MetaEdgeResistanceData where
  "screen_cache =
     \<lparr>left_edges = [left_window_edge 0], right_edges = [right_screen_edge 100 0],
      top_edges = [], bottom_edges = [],
      left_data = example_data, right_data = example_data,
      top_data = example_data, bottom_data = example_data\<rparr>"

text \<open>
  The state of a grab that started with \<open>screen_cache\<close> and an idle main loop, after a
  mouse move of the right side from 90 to 200 has run into the screen edge at 100 and set
  up the 750 ms timer.
\<close>

definition armed_state :: "MetaEdgeResistanceData \<times> GMainContext" where
  "armed_state =
     ((initialize_grab_edge_resistance_data stack_display screen_cache)
        \<lparr>right_data :=
           (right_data (initialize_grab_edge_resistance_data stack_display screen_cache))
             \<lparr>timeout_id := 1, timeout_setup := True, timeout_edge_pos := 100,
              timeout_over := False, timeout_func := 7, window := example_window\<rparr>\<rparr>,
      \<lparr>next_source_id = 2,
       sources = [\<lparr>source_id = 1, source_interval = 750, source_data = RIGHT_DATA\<rparr>]\<rparr>)"

section \<open>Properties\<close>



subsection \<open>The product of points_on_same_side\<close>

text \<open>
  Within 15 bits of the reference point the product is the mathematical one, and the test
  says whether the two points lie strictly on the same side of it. Beyond that the product
  can wrap: 50000 and 50001 are both to the right of 0, and the test is false.
\<close>

lemma points_on_same_side_small:
  assumes "\<bar>pt1 - ref\<bar> \<le> 32767" and "\<bar>pt2 - ref\<bar> \<le> 32767"
  shows "points_on_same_side ref pt1 pt2 \<longleftrightarrow>
         (ref < pt1 \<and> ref < pt2) \<or> (pt1 < ref \<and> pt2 < ref)"
proof -
  have w: "int32_wrap v = v" if "\<bar>v\<bar> \<le> 2147483647" for v
    using that by (simp add: int32_wrap_def)
  have "\<bar>(pt1 - ref) * (pt2 - ref)\<bar> \<le> 32767 * 32767"
    unfolding abs_mult using assms by (intro mult_mono) simp_all
  then have p: "int32_wrap ((pt1 - ref) * (pt2 - ref)) = (pt1 - ref) * (pt2 - ref)"
    by (intro w) simp
  have a: "int32_wrap (pt1 - ref) = pt1 - ref" "int32_wrap (pt2 - ref) = pt2 - ref"
    using assms by (simp_all add: w)
  show ?thesis
    unfolding points_on_same_side_def a p by (auto simp: zero_less_mult_iff)
qed

lemma points_on_same_side_overflow:
  "\<not> points_on_same_side 0 50000 50001"
  by (simp add: points_on_same_side_def int32_wrap_def)

subsection \<open>The searches on a non-empty array\<close>

lemma walk_down_ok:
  "0 \<le> mid \<Longrightarrow> mid < int (length edges) \<Longrightarrow> compare = edge_coord h (edges ! nat mid) \<Longrightarrow>
   \<exists>m. walk_down c edges position h mid compare = Inr (m, edge_coord h (edges ! nat m)) \<and>
       0 \<le> m \<and> m \<le> mid \<and>
       (\<forall>j. m < j \<and> j \<le> mid \<longrightarrow> c (edge_coord h (edges ! nat j)) position) \<and>
       (m = 0 \<or> \<not> c (edge_coord h (edges ! nat m)) position)"
proof (induction c edges position h mid compare rule: walk_down.induct)
  case (1 c edges position horizontal mid compare)
  show ?case
  proof (cases "c compare position \<and> mid > 0")
    case True
    then have rd: "g_array_index edges (mid - 1) = Inr (edges ! nat (mid - 1))"
      using 1(3) by (simp add: g_array_index_def)
    have "0 \<le> mid - 1" "mid - 1 < int (length edges)" using True 1(3) by auto
    from 1(1)[OF True rd this refl]
    obtain m where m: "walk_down c edges position horizontal (mid - 1)
           (edge_coord horizontal (edges ! nat (mid - 1))) =
          Inr (m, edge_coord horizontal (edges ! nat m))" "0 \<le> m" "m \<le> mid - 1"
       "\<forall>j. m < j \<and> j \<le> mid - 1 \<longrightarrow> c (edge_coord horizontal (edges ! nat j)) position"
       "m = 0 \<or> \<not> c (edge_coord horizontal (edges ! nat m)) position"
      by auto
    have "\<forall>j. m < j \<and> j \<le> mid \<longrightarrow> c (edge_coord horizontal (edges ! nat j)) position"
    proof (intro allI impI)
      fix j assume "m < j \<and> j \<le> mid"
      then consider "j \<le> mid - 1" | "j = mid" by linarith
      then show "c (edge_coord horizontal (edges ! nat j)) position"
        using m(4) True 1(4) \<open>m < j \<and> j \<le> mid\<close> by cases auto
    qed
    then show ?thesis
      using True rd m by (subst walk_down.simps) auto
  next
    case False
    then show ?thesis using 1(2,3,4) by (subst walk_down.simps) auto
  qed
qed

lemma walk_up_ok:
  "0 \<le> mid \<Longrightarrow> mid < int (length edges) \<Longrightarrow> compare = edge_coord h (edges ! nat mid) \<Longrightarrow>
   \<exists>m. walk_up c edges position h mid compare = Inr (m, edge_coord h (edges ! nat m)) \<and>
       mid \<le> m \<and> m < int (length edges) \<and>
       (\<forall>j. mid \<le> j \<and> j < m \<longrightarrow> c (edge_coord h (edges ! nat j)) position) \<and>
       (m = int (length edges) - 1 \<or> \<not> c (edge_coord h (edges ! nat m)) position)"
proof (induction c edges position h mid compare rule: walk_up.induct)
  case (1 c edges position horizontal mid compare)
  show ?case
  proof (cases "c compare position \<and> mid < int (length edges) - 1")
    case True
    then have rd: "g_array_index edges (mid + 1) = Inr (edges ! nat (mid + 1))"
      using 1(2) by (simp add: g_array_index_def)
    have "0 \<le> mid + 1" "mid + 1 < int (length edges)" using True 1(2) by auto
    from 1(1)[OF True rd this refl]
    obtain m where m: "walk_up c edges position horizontal (mid + 1)
           (edge_coord horizontal (edges ! nat (mid + 1))) =
          Inr (m, edge_coord horizontal (edges ! nat m))" "mid + 1 \<le> m" "m < int (length edges)"
       "\<forall>j. mid + 1 \<le> j \<and> j < m \<longrightarrow> c (edge_coord horizontal (edges ! nat j)) position"
       "m = int (length edges) - 1 \<or> \<not> c (edge_coord horizontal (edges ! nat m)) position"
      by auto
    have "\<forall>j. mid \<le> j \<and> j < m \<longrightarrow> c (edge_coord horizontal (edges ! nat j)) position"
    proof (intro allI impI)
      fix j assume "mid \<le> j \<and> j < m"
      then consider "mid + 1 \<le> j" | "j = mid" by linarith
      then show "c (edge_coord horizontal (edges ! nat j)) position"
        using m(4) True 1(4) \<open>mid \<le> j \<and> j < m\<close> by cases auto
    qed
    then show ?thesis
      using True rd m by (subst walk_up.simps) auto
  next
    case False
    then show ?thesis using 1(2,3,4) by (subst walk_up.simps) auto
  qed
qed

lemma binary_search_loop_ok:
  "0 \<le> low \<Longrightarrow> high < int (length edges) \<Longrightarrow> 0 \<le> mid \<Longrightarrow> mid < int (length edges) \<Longrightarrow>
   compare = edge_coord h (edges ! nat mid) \<Longrightarrow>
   \<exists>m. binary_search_loop edges position h low high mid compare =
         Inr (m, edge_coord h (edges ! nat m)) \<and> 0 \<le> m \<and> m < int (length edges)"
proof (induction edges position h low high mid compare rule: binary_search_loop.induct)
  case (1 edges position horizontal low high mid compare)
  show ?case
  proof (cases "low < high")
    case True
    define md where "md = low + (high - low) div 2"
    have md: "low \<le> md" "md < high" using True by (auto simp: md_def)
    then have rd: "g_array_index edges md = Inr (edges ! nat md)"
      using 1(3,4) by (simp add: g_array_index_def)
    show ?thesis
      using 1(1)[OF True rd[unfolded md_def]] 1(2)[OF True rd[unfolded md_def]] True rd md 1(3,4)
      by (subst binary_search_loop.simps) (auto simp: md_def[symmetric])
  next
    case False
    then show ?thesis using 1(3-) by (subst binary_search_loop.simps) auto
  qed
qed

lemma binary_search_ok:
  "edges \<noteq> [] \<Longrightarrow>
   \<exists>m. binary_search edges position h = Inr (m, edge_coord h (edges ! nat m)) \<and>
       0 \<le> m \<and> m < int (length edges)"
  using binary_search_loop_ok[of 0 "int (length edges) - 1" edges 0 "edge_coord h (edges ! 0)" h position]
  by (auto simp: binary_search_def g_array_index_def)

lemma edges_sorted_nth:
  "edges_sorted h edges \<Longrightarrow> 0 \<le> i \<Longrightarrow> i \<le> j \<Longrightarrow> j < int (length edges) \<Longrightarrow>
   edge_coord h (edges ! nat i) \<le> edge_coord h (edges ! nat j)"
  unfolding edges_sorted_def
  using sorted_nth_mono[of "map (edge_coord h) edges" "nat i" "nat j"] by auto

lemma find_index_min_ok:
  assumes ne: "edges \<noteq> []" and so: "edges_sorted h edges"
  shows "\<exists>r. find_index_of_edge_near_position edges position True h = Inr r \<and>
     ((r = int (length edges) \<and> (\<forall>i<length edges. edge_coord h (edges ! i) < position)) \<or>
      (0 \<le> r \<and> r < int (length edges) \<and> position \<le> edge_coord h (edges ! nat r) \<and>
       (\<forall>i<length edges. int i < r \<longrightarrow> edge_coord h (edges ! i) < position)))"
proof -
  let ?a = "\<lambda>i. edge_coord h (edges ! nat i)"
  obtain m0 where m0: "binary_search edges position h = Inr (m0, ?a m0)" "0 \<le> m0" "m0 < int (length edges)"
    using binary_search_ok[OF ne] by blast
  obtain m1 where m1: "walk_down (\<lambda>c p. c \<ge> p) edges position h m0 (?a m0) = Inr (m1, ?a m1)"
      "0 \<le> m1" "m1 \<le> m0" "m1 = 0 \<or> \<not> position \<le> ?a m1"
    using walk_down_ok[OF m0(2,3) refl, of "\<lambda>c p. c \<ge> p" position] by blast
  have m1len: "m1 < int (length edges)" using m1(3) m0(3) by simp
  obtain m2 where m2: "walk_up (\<lambda>c p. c < p) edges position h m1 (?a m1) = Inr (m2, ?a m2)"
      "m1 \<le> m2" "m2 < int (length edges)"
      "\<forall>j. m1 \<le> j \<and> j < m2 \<longrightarrow> ?a j < position"
      "m2 = int (length edges) - 1 \<or> \<not> ?a m2 < position"
    using walk_up_ok[OF m1(2) m1len refl, of "\<lambda>c p. c < p" position] by blast
  have below: "?a j < position" if "0 \<le> j" "j < m2" for j
  proof (cases "m1 \<le> j")
    case True then show ?thesis using m2(4) that by blast
  next
    case False
    then have "0 < m1" "j \<le> m1" using that by auto
    then have "?a m1 < position" using m1(4) by auto
    moreover have "?a j \<le> ?a m1" using edges_sorted_nth[OF so that(1) \<open>j \<le> m1\<close> m1len] .
    ultimately show ?thesis by simp
  qed
  have res: "find_index_of_edge_near_position edges position True h =
      (if ?a m2 < position then Inr (int (length edges)) else Inr m2)"
    by (simp add: find_index_of_edge_near_position_def m0 m1 m2)
  show ?thesis
  proof (cases "?a m2 < position")
    case True
    then have last: "m2 = int (length edges) - 1" using m2(5) by auto
    have "edge_coord h (edges ! i) < position" if "i < length edges" for i
    proof -
      have "?a (int i) \<le> ?a m2" using edges_sorted_nth[OF so _ _ m2(3), of "int i"] that last by auto
      then show ?thesis using True by simp
    qed
    then show ?thesis using res True by auto
  next
    case False
    have "edge_coord h (edges ! i) < position" if "i < length edges" "int i < m2" for i
      using below[of "int i"] that by simp
    then show ?thesis using res False m1(2) m2(2,3) by auto
  qed
qed

lemma find_index_max_ok:
  assumes ne: "edges \<noteq> []" and so: "edges_sorted h edges"
  shows "\<exists>r. find_index_of_edge_near_position edges position False h = Inr r \<and>
     ((r = - 1 \<and> (\<forall>i<length edges. position < edge_coord h (edges ! i))) \<or>
      (0 \<le> r \<and> r < int (length edges) \<and> edge_coord h (edges ! nat r) \<le> position \<and>
       (\<forall>i<length edges. r < int i \<longrightarrow> position < edge_coord h (edges ! i))))"
proof -
  let ?a = "\<lambda>i. edge_coord h (edges ! nat i)"
  obtain m0 where m0: "binary_search edges position h = Inr (m0, ?a m0)" "0 \<le> m0" "m0 < int (length edges)"
    using binary_search_ok[OF ne] by blast
  obtain m1 where m1: "walk_up (\<lambda>c p. c \<le> p) edges position h m0 (?a m0) = Inr (m1, ?a m1)"
      "m0 \<le> m1" "m1 < int (length edges)"
      "m1 = int (length edges) - 1 \<or> \<not> ?a m1 \<le> position"
    using walk_up_ok[OF m0(2,3) refl, of "\<lambda>c p. c \<le> p" position] by blast
  have m1nn: "0 \<le> m1" using m1(2) m0(2) by simp
  obtain m2 where m2: "walk_down (\<lambda>c p. c > p) edges position h m1 (?a m1) = Inr (m2, ?a m2)"
      "0 \<le> m2" "m2 \<le> m1"
      "\<forall>j. m2 < j \<and> j \<le> m1 \<longrightarrow> position < ?a j"
      "m2 = 0 \<or> \<not> position < ?a m2"
    using walk_down_ok[OF m1nn m1(3) refl, of "\<lambda>c p. c > p" position] by blast
  have m2len: "m2 < int (length edges)" using m2(3) m1(3) by simp
  have above: "position < ?a j" if "m2 < j" "j < int (length edges)" for j
  proof (cases "j \<le> m1")
    case True then show ?thesis using m2(4) that by blast
  next
    case False
    then have "m1 < int (length edges) - 1" "m1 \<le> j" using that by auto
    then have "position < ?a m1" using m1(4) by auto
    moreover have "?a m1 \<le> ?a j" using edges_sorted_nth[OF so m1nn \<open>m1 \<le> j\<close> that(2)] .
    ultimately show ?thesis by simp
  qed
  have res: "find_index_of_edge_near_position edges position False h =
      (if position < ?a m2 then Inr (- 1) else Inr m2)"
    by (simp add: find_index_of_edge_near_position_def m0 m1 m2)
  show ?thesis
  proof (cases "position < ?a m2")
    case True
    then have first: "m2 = 0" using m2(5) by auto
    have "position < edge_coord h (edges ! i)" if "i < length edges" for i
    proof -
      have "?a m2 \<le> ?a (int i)" using edges_sorted_nth[OF so m2(2), of "int i"] that first by auto
      then show ?thesis using True by simp
    qed
    then show ?thesis using res True by auto
  next
    case False
    have "position < edge_coord h (edges ! i)" if "i < length edges" "m2 < int i" for i
      using above[of "int i"] that by simp
    then show ?thesis using res False m2(2) m2len by auto
  qed
qed

text \<open>
  For every non-empty edge array sorted non-decreasing by coordinate,
  find_index_of_edge_near_position returns an index, and: with \<open>want_interval_min\<close> it is
  the smallest index whose coordinate is at least \<open>position\<close>, or the length of the
  array when every coordinate is below \<open>position\<close>; without it, it is the largest index
  whose coordinate is at most \<open>position\<close>, or \<open>-1\<close> when every coordinate is above
  \<open>position\<close>.
\<close>

lemma find_index_of_edge_near_position_bounds:
  assumes "edges \<noteq> []" and "edges_sorted horizontal edges"
  shows "\<exists>r. find_index_of_edge_near_position edges position want_interval_min horizontal = Inr r \<and>
     (if want_interval_min then
        (r = int (length edges) \<and>
         (\<forall>i<length edges. edge_coord horizontal (edges ! i) < position)) \<or>
        (0 \<le> r \<and> r < int (length edges) \<and>
         position \<le> edge_coord horizontal (edges ! nat r) \<and>
         (\<forall>i<length edges. int i < r \<longrightarrow> edge_coord horizontal (edges ! i) < position))
      else
        (r = - 1 \<and> (\<forall>i<length edges. position < edge_coord horizontal (edges ! i))) \<or>
        (0 \<le> r \<and> r < int (length edges) \<and>
         edge_coord horizontal (edges ! nat r) \<le> position \<and>
         (\<forall>i<length edges. r < int i \<longrightarrow> position < edge_coord horizontal (edges ! i))))"
proof (cases want_interval_min)
  case True
  then show ?thesis using find_index_min_ok[OF assms, of position] by simp
next
  case False
  then show ?thesis using find_index_max_ok[OF assms, of position] by simp
qed

text \<open>
  The array of the source comment is non-empty and sorted, and the six answers the comment
  lists are the ones the function gives.
\<close>

lemma find_index_of_edge_near_position_comment_array:
  "comment_array \<noteq> [] \<and> edges_sorted True comment_array \<and>
   find_index_of_edge_near_position comment_array 500 True True = Inr 5 \<and>
   find_index_of_edge_near_position comment_array 805 False True = Inr 7 \<and>
   find_index_of_edge_near_position comment_array 316 True True = Inr 2 \<and>
   find_index_of_edge_near_position comment_array 316 False True = Inr 4 \<and>
   find_index_of_edge_near_position comment_array 2 False True = Inr (- 1) \<and>
   find_index_of_edge_near_position comment_array 2000 True True = Inr 9"
proof -
  have ne: "comment_array \<noteq> []" by (simp add: comment_array_def)
  have so: "edges_sorted True comment_array"
    by (simp add: edges_sorted_def comment_array_def left_window_edge_def edge_coord_def
        meta_rect_def)
  have ex: "\<exists>r. find_index_of_edge_near_position comment_array 500 True True = Inr r"
    using find_index_of_edge_near_position_bounds[OF ne so, of 500 True] by blast
  have "find_index_of_edge_near_position comment_array 500 True True = Inr 5" by code_simp
  moreover have "find_index_of_edge_near_position comment_array 805 False True = Inr 7"
    by code_simp
  moreover have "find_index_of_edge_near_position comment_array 316 True True = Inr 2"
    by code_simp
  moreover have "find_index_of_edge_near_position comment_array 316 False True = Inr 4"
    by code_simp
  moreover have "find_index_of_edge_near_position comment_array 2 False True = Inr (- 1)"
    by code_simp
  moreover have "find_index_of_edge_near_position comment_array 2000 True True = Inr 9"
    by code_simp
  ultimately show ?thesis using ne so ex by simp
qed

text \<open>
  C1. The empty array is sorted non-decreasing, and no coordinate in it is as large or as
  small as the query, so the index asked for is the length of the array, 0, for the lower
  bound and \<open>-1\<close> for the upper bound. The function returns neither: it reads element 0
  before anything else (\<^verbatim>\<open>mid = 0; edge = g_array_index (edges, MetaEdge*, mid);\<close>), which
  is outside the array. The same read is the subject of C2.
\<close>

theorem find_index_of_edge_near_position_empty_array:
  "edges_sorted True [] \<and>
   find_index_of_edge_near_position [] 0 True True = Inl OutOfBounds \<and>
   find_index_of_edge_near_position [] 0 False True = Inl OutOfBounds"
  by (simp add: edges_sorted_def find_index_of_edge_near_position_def binary_search_def
      g_array_index_def)

text \<open>
  C2. On an array of length 0 both search helpers read element 0, which is outside the
  array, so neither they nor the entry points that call them return a coordinate.
\<close>

theorem empty_array_read_out_of_bounds:
  "find_index_of_edge_near_position [] position want_interval_min horizontal = Inl OutOfBounds \<and>
   find_nearest_position [] position old_position new_rect horizontal only_forward =
     Inl OutOfBounds \<and>
   apply_edge_resistance win 0 1 new_rect [] ptr resistance_data timeout_fn xdir keyboard_op ctx =
     Inl OutOfBounds \<and>
   apply_edge_snapping 0 1 new_rect [] [] xdir keyboard_op = Inl OutOfBounds"
  by (simp add: find_index_of_edge_near_position_def find_nearest_position_def
      binary_search_def g_array_index_def apply_edge_resistance_def apply_edge_snapping_def
      split: prod.split)

text \<open>
  C9. Five aligned edges at 0, 10, 51, 60 and 70, the target 50: the binary search stops
  at index 0, the upward scan stops at the first aligned edge, 10, and the function
  returns it, although the aligned edge at 51 is at distance 1 from the target.
\<close>

theorem find_nearest_position_not_nearest:
  "edges_sorted True (map left_window_edge [0, 10, 51, 60, 70]) \<and>
   list_all (\<lambda>e. edges_align True e (meta_rect 0 0 10 10)) (map left_window_edge [0, 10, 51, 60, 70]) \<and>
   find_nearest_position (map left_window_edge [0, 10, 51, 60, 70]) 50 40
     (meta_rect 0 0 10 10) True False = Inr 10"
proof -
  have "find_nearest_position (map left_window_edge [0, 10, 51, 60, 70]) 50 40
     (meta_rect 0 0 10 10) True False = Inr 10"
    by code_simp
  then show ?thesis
    by (simp add: edges_sorted_def left_window_edge_def edge_coord_def meta_rect_def
        edges_align_def meta_rectangle_vert_overlap_def)
qed

subsection \<open>Snapping\<close>

text \<open>
  C5. In mouse snap mode (\<open>keyboard_op\<close> false), when the candidate apply_edge_snapping
  chooses among the nearest positions of the two arrays (the first if it is strictly
  nearer to \<open>new_pos\<close>, else the second) is 8 or more pixels from \<open>old_pos\<close> while
  \<open>new_pos\<close> is less than 8 pixels from \<open>old_pos\<close>, the function returns
  \<open>old_pos\<close>.
\<close>

theorem apply_edge_snapping_mouse_jitter:
  assumes "find_nearest_position edges1 new_pos old_pos new_rect xdir False = Inr pos1"
      and "find_nearest_position edges2 new_pos old_pos new_rect xdir False = Inr pos2"
      and "\<bar>(if \<bar>pos1 - new_pos\<bar> < \<bar>pos2 - new_pos\<bar> then pos1 else pos2) - old_pos\<bar> \<ge> 8"
      and "\<bar>new_pos - old_pos\<bar> < 8"
  shows "apply_edge_snapping old_pos new_pos new_rect edges1 edges2 xdir False = Inr old_pos"
  using assms by (simp add: apply_edge_snapping_def Let_def)

text \<open>
  A mouse move of 3 pixels, from 100 to 103, with the nearest aligned edge of either array
  10 pixels from the old position: the old position is returned.
\<close>

theorem apply_edge_snapping_mouse_jitter_witness:
  "find_nearest_position [left_window_edge 110] 103 100 (meta_rect 103 0 50 50) True False =
     Inr 110 \<and>
   find_nearest_position [right_window_edge 110] 103 100 (meta_rect 103 0 50 50) True False =
     Inr 110 \<and>
   apply_edge_snapping 100 103 (meta_rect 103 0 50 50) [left_window_edge 110]
     [right_window_edge 110] True False = Inr 100"
proof -
  have 1: "find_nearest_position [left_window_edge 110] 103 100 (meta_rect 103 0 50 50)
             True False = Inr 110"
    by code_simp
  have 2: "find_nearest_position [right_window_edge 110] 103 100 (meta_rect 103 0 50 50)
             True False = Inr 110"
    by code_simp
  show ?thesis using apply_edge_snapping_mouse_jitter[OF 1 2] 1 2 by simp
qed

text \<open>
  C10. A call of apply_edge_resistance_to_each_side in snap mode (\<open>auto_snap\<close> true) that
  returns leaves the resistance data of all four sides and the main loop as they were: no
  field of a \<open>ResistanceDataForAnEdge\<close> changes and no timeout source is added or
  removed. The four coordinates of its result are those of apply_edge_snapping.
\<close>

theorem snap_mode_leaves_resistance_state:
  assumes "apply_edge_resistance_to_each_side grab_data win old_outer new_outer timeout_fn True
             keyboard_op ctx = Inr (res, edge_data, ctx1)"
  shows "grab_data = Some edge_data \<and> ctx1 = ctx \<and>
    (\<exists>new_left new_right new_top new_bottom.
       apply_edge_snapping (BOX_LEFT old_outer) (BOX_LEFT new_outer) new_outer
         (left_edges edge_data) (right_edges edge_data) True keyboard_op = Inr new_left \<and>
       apply_edge_snapping (BOX_RIGHT old_outer) (BOX_RIGHT new_outer) new_outer
         (left_edges edge_data) (right_edges edge_data) True keyboard_op = Inr new_right \<and>
       apply_edge_snapping (BOX_TOP old_outer) (BOX_TOP new_outer) new_outer
         (top_edges edge_data) (bottom_edges edge_data) False keyboard_op = Inr new_top \<and>
       apply_edge_snapping (BOX_BOTTOM old_outer) (BOX_BOTTOM new_outer) new_outer
         (top_edges edge_data) (bottom_edges edge_data) False keyboard_op = Inr new_bottom \<and>
       res = save_changes new_outer new_left new_right new_top new_bottom)"
  using assms
  by (auto simp: apply_edge_resistance_to_each_side_def split: option.splits sum.splits)

text \<open>A keyboard snap move of the example window one pixel to the left.\<close>

theorem snap_mode_leaves_resistance_state_witness:
  "apply_edge_resistance_to_each_side (Some (example_cache 25 25)) example_window
     (meta_rect 20 0 10 10) (meta_rect 19 0 10 10) 0 True True idle_main_loop =
     Inr ((True, meta_rect 20 0 5 10), example_cache 25 25, idle_main_loop)"
proof -
  have e: "apply_edge_resistance_to_each_side (Some (example_cache 25 25)) example_window
     (meta_rect 20 0 10 10) (meta_rect 19 0 10 10) 0 True True idle_main_loop =
     Inr ((True, meta_rect 20 0 5 10), example_cache 25 25, idle_main_loop)"
    by code_simp
  show ?thesis using snap_mode_leaves_resistance_state[OF e] e by simp
qed

subsection \<open>Reconciliation in a move\<close>

lemma save_changes_unmodified:
  "save_changes new_outer l r t b = (False, no) \<Longrightarrow>
   BOX_LEFT no = BOX_LEFT new_outer \<and> BOX_RIGHT no = BOX_RIGHT new_outer \<and>
   BOX_TOP no = BOX_TOP new_outer \<and> BOX_BOTTOM no = BOX_BOTTOM new_outer"
  by (auto simp: save_changes_def meta_rectangle_equal_def meta_rect_def BOX_LEFT_def BOX_RIGHT_def BOX_TOP_def BOX_BOTTOM_def)

lemma each_side_unmodified:
  assumes "apply_edge_resistance_to_each_side grab_data win old_outer new_outer timeout_fn snap
             keyboard_op ctx = Inr ((False, no), edge_data, ctx1)"
  shows "BOX_LEFT no = BOX_LEFT new_outer \<and> BOX_RIGHT no = BOX_RIGHT new_outer \<and>
   BOX_TOP no = BOX_TOP new_outer \<and> BOX_BOTTOM no = BOX_BOTTOM new_outer"
  using assms
  by (auto simp: apply_edge_resistance_to_each_side_def split: option.splits sum.splits if_splits
      dest!: save_changes_unmodified)

text \<open>
  C6 (as amended). A move displaces both edges of an axis by one and the same change, so
  the size of the window is kept: the left and the right edge end at the reference
  rectangle's left and right plus \<open>cx\<close>, the top and the bottom at its top and bottom
  plus \<open>cy\<close>. The change is one of the two changes apply_edge_resistance_to_each_side
  gave for the axis: in keyboard snap mode, when one of the two is zero, the other one;
  in every other case one whose absolute value is the smaller.
\<close>

theorem move_applies_one_change_to_both_edges:
  assumes hold: "old_outer =
            (if xwindow win = xwindow (grab_window display) \<and> grab_wireframe_active display
             then xor_rect win (grab_wireframe_rect display) else outer_rect win)"
      and hprop: "proposed_outer = old_outer\<lparr>rect_x := rect_x old_outer + (new_x - old_x),
                       rect_y := rect_y old_outer + (new_y - old_y)\<rparr>"
      and href: "reference = (if snap \<and> \<not> is_keyboard_op then proposed_outer else old_outer)"
      and each: "apply_edge_resistance_to_each_side (grab_edge_resistance_data display) win
             old_outer proposed_outer timeout_fn snap is_keyboard_op ctx =
           Inr ((modified, new_outer), edge_data, ctx1)"
      and chg: "left_change = BOX_LEFT new_outer - BOX_LEFT reference"
               "right_change = BOX_RIGHT new_outer - BOX_RIGHT reference"
               "top_change = BOX_TOP new_outer - BOX_TOP reference"
               "bottom_change = BOX_BOTTOM new_outer - BOX_BOTTOM reference"
  shows "\<exists>x' y' display1 cx cy.
           meta_window_edge_resistance_for_move xor_rect display win old_x old_y new_x new_y
             timeout_fn snap is_keyboard_op ctx = Inr ((x', y'), display1, ctx1) \<and>
           BOX_LEFT old_outer + (x' - old_x) = BOX_LEFT reference + cx \<and>
           BOX_RIGHT old_outer + (x' - old_x) = BOX_RIGHT reference + cx \<and>
           BOX_TOP old_outer + (y' - old_y) = BOX_TOP reference + cy \<and>
           BOX_BOTTOM old_outer + (y' - old_y) = BOX_BOTTOM reference + cy \<and>
           (cx = left_change \<or> cx = right_change) \<and>
           (cy = top_change \<or> cy = bottom_change) \<and>
           (if snap \<and> is_keyboard_op \<and> left_change = 0 then cx = right_change
            else if snap \<and> is_keyboard_op \<and> right_change = 0 then cx = left_change
            else \<bar>cx\<bar> \<le> \<bar>left_change\<bar> \<and> \<bar>cx\<bar> \<le> \<bar>right_change\<bar>) \<and>
           (if snap \<and> is_keyboard_op \<and> top_change = 0 then cy = bottom_change
            else if snap \<and> is_keyboard_op \<and> bottom_change = 0 then cy = top_change
            else \<bar>cy\<bar> \<le> \<bar>top_change\<bar> \<and> \<bar>cy\<bar> \<le> \<bar>bottom_change\<bar>)"
proof -
  let ?cx = "smaller_change snap is_keyboard_op left_change right_change"
  let ?cy = "smaller_change snap is_keyboard_op top_change bottom_change"
  let ?x = "old_x + ?cx + (BOX_LEFT reference - BOX_LEFT old_outer)"
  let ?y = "old_y + ?cy + (BOX_TOP reference - BOX_TOP old_outer)"
  have width: "BOX_RIGHT reference - BOX_LEFT reference = BOX_RIGHT old_outer - BOX_LEFT old_outer"
    and height: "BOX_BOTTOM reference - BOX_TOP reference = BOX_BOTTOM old_outer - BOX_TOP old_outer"
    by (auto simp: href hprop BOX_LEFT_def BOX_RIGHT_def BOX_TOP_def BOX_BOTTOM_def)
  have unm: "left_change = right_change \<and> top_change = bottom_change \<and>
             new_x = old_x + left_change + (BOX_LEFT reference - BOX_LEFT old_outer) \<and>
             new_y = old_y + top_change + (BOX_TOP reference - BOX_TOP old_outer)" if "\<not> modified"
  proof -
    from each that have e: "BOX_LEFT new_outer = BOX_LEFT proposed_outer"
      "BOX_RIGHT new_outer = BOX_RIGHT proposed_outer"
      "BOX_TOP new_outer = BOX_TOP proposed_outer"
      "BOX_BOTTOM new_outer = BOX_BOTTOM proposed_outer"
      using each_side_unmodified by auto
    show ?thesis
      unfolding chg e
      by (auto simp: href hprop BOX_LEFT_def BOX_RIGHT_def BOX_TOP_def BOX_BOTTOM_def)
  qed
  have res: "\<exists>display1. meta_window_edge_resistance_for_move xor_rect display win old_x old_y new_x new_y
             timeout_fn snap is_keyboard_op ctx = Inr ((?x, ?y), display1, ctx1)"
  proof (cases modified)
    case True
    then show ?thesis
      using each unfolding meta_window_edge_resistance_for_move_def hold[symmetric] Let_def hprop[symmetric]
        href[symmetric] chg by simp
  next
    case False
    from unm[OF False] have "?cx = left_change" "?cy = top_change"
      by (auto simp: smaller_change_def)
    with unm[OF False] have "?x = new_x" "?y = new_y" by auto
    then show ?thesis
      using each False unfolding meta_window_edge_resistance_for_move_def hold[symmetric] Let_def hprop[symmetric]
        href[symmetric] by simp
  qed
  then obtain display1 where r: "meta_window_edge_resistance_for_move xor_rect display win old_x old_y new_x new_y
             timeout_fn snap is_keyboard_op ctx = Inr ((?x, ?y), display1, ctx1)" by blast
  have cxp: "(?cx = left_change \<or> ?cx = right_change) \<and>
           (if snap \<and> is_keyboard_op \<and> left_change = 0 then ?cx = right_change
            else if snap \<and> is_keyboard_op \<and> right_change = 0 then ?cx = left_change
            else \<bar>?cx\<bar> \<le> \<bar>left_change\<bar> \<and> \<bar>?cx\<bar> \<le> \<bar>right_change\<bar>)"
    by (auto simp: smaller_change_def)
  have cyp: "(?cy = top_change \<or> ?cy = bottom_change) \<and>
           (if snap \<and> is_keyboard_op \<and> top_change = 0 then ?cy = bottom_change
            else if snap \<and> is_keyboard_op \<and> bottom_change = 0 then ?cy = top_change
            else \<bar>?cy\<bar> \<le> \<bar>top_change\<bar> \<and> \<bar>?cy\<bar> \<le> \<bar>bottom_change\<bar>)"
    by (auto simp: smaller_change_def)
  have pos: "BOX_LEFT old_outer + (?x - old_x) = BOX_LEFT reference + ?cx"
     "BOX_RIGHT old_outer + (?x - old_x) = BOX_RIGHT reference + ?cx"
     "BOX_TOP old_outer + (?y - old_y) = BOX_TOP reference + ?cy"
     "BOX_BOTTOM old_outer + (?y - old_y) = BOX_BOTTOM reference + ?cy"
    using width height by auto
  show ?thesis
    apply (rule exI[of _ ?x], rule exI[of _ ?y], rule exI[of _ display1], rule exI[of _ ?cx], rule exI[of _ ?cy])
    using r cxp cyp pos by blast
qed

text \<open>
  A mouse move of the example window 3 pixels to the right: the left edge is free to move
  by 3, the right edge is held at 31 and moves by 1, and the move is by 1.
\<close>

theorem move_applies_one_change_to_both_edges_witness:
  "apply_edge_resistance_to_each_side (grab_edge_resistance_data (example_display 25 31))
     example_window (meta_rect 20 0 10 10) (meta_rect 23 0 10 10) 0 False False idle_main_loop =
     Inr ((True, meta_rect 23 0 8 10), example_cache 25 31, idle_main_loop) \<and>
   (\<exists>display1.
      meta_window_edge_resistance_for_move (\<lambda>w r. r) (example_display 25 31) example_window
        20 0 23 0 0 False False idle_main_loop = Inr ((21, 0), display1, idle_main_loop))"
proof -
  have each: "apply_edge_resistance_to_each_side (grab_edge_resistance_data (example_display 25 31))
     example_window (meta_rect 20 0 10 10) (meta_rect 23 0 10 10) 0 False False idle_main_loop =
     Inr ((True, meta_rect 23 0 8 10), example_cache 25 31, idle_main_loop)"
    by code_simp
  note m = move_applies_one_change_to_both_edges[where xor_rect = "\<lambda>w r. r"
      and display = "example_display 25 31" and win = example_window
      and old_x = 20 and old_y = 0 and new_x = 23 and new_y = 0
      and old_outer = "meta_rect 20 0 10 10" and proposed_outer = "meta_rect 23 0 10 10"
      and reference = "meta_rect 20 0 10 10" and snap = False and is_keyboard_op = False,
      OF _ _ _ each refl refl refl refl]
  have "\<exists>x' y' display1 cx cy.
    meta_window_edge_resistance_for_move (\<lambda>w r. r) (example_display 25 31) example_window
        20 0 23 0 0 False False idle_main_loop = Inr ((x', y'), display1, idle_main_loop) \<and>
    BOX_LEFT (meta_rect 20 0 10 10) + (x' - 20) = BOX_LEFT (meta_rect 20 0 10 10) + cx \<and>
    BOX_TOP (meta_rect 20 0 10 10) + (y' - 0) = BOX_TOP (meta_rect 20 0 10 10) + cy \<and>
    \<bar>cx\<bar> \<le> \<bar>BOX_LEFT (meta_rect 23 0 8 10) - BOX_LEFT (meta_rect 20 0 10 10)\<bar> \<and>
    \<bar>cx\<bar> \<le> \<bar>BOX_RIGHT (meta_rect 23 0 8 10) - BOX_RIGHT (meta_rect 20 0 10 10)\<bar> \<and>
    (cx = BOX_LEFT (meta_rect 23 0 8 10) - BOX_LEFT (meta_rect 20 0 10 10) \<or>
     cx = BOX_RIGHT (meta_rect 23 0 8 10) - BOX_RIGHT (meta_rect 20 0 10 10)) \<and>
    (cy = BOX_TOP (meta_rect 23 0 8 10) - BOX_TOP (meta_rect 20 0 10 10) \<or>
     cy = BOX_BOTTOM (meta_rect 23 0 8 10) - BOX_BOTTOM (meta_rect 20 0 10 10))"
    using m by (simp add: example_display_def example_window_def meta_rect_def) blast
  then obtain x' y' display1 cx cy where
    r: "meta_window_edge_resistance_for_move (\<lambda>w r. r) (example_display 25 31) example_window
        20 0 23 0 0 False False idle_main_loop = Inr ((x', y'), display1, idle_main_loop)"
    and l: "BOX_LEFT (meta_rect 20 0 10 10) + (x' - 20) = BOX_LEFT (meta_rect 20 0 10 10) + cx"
    and t: "BOX_TOP (meta_rect 20 0 10 10) + (y' - 0) = BOX_TOP (meta_rect 20 0 10 10) + cy"
    and cx: "\<bar>cx\<bar> \<le> \<bar>BOX_LEFT (meta_rect 23 0 8 10) - BOX_LEFT (meta_rect 20 0 10 10)\<bar> \<and>
             \<bar>cx\<bar> \<le> \<bar>BOX_RIGHT (meta_rect 23 0 8 10) - BOX_RIGHT (meta_rect 20 0 10 10)\<bar>"
      "cx = BOX_LEFT (meta_rect 23 0 8 10) - BOX_LEFT (meta_rect 20 0 10 10) \<or>
       cx = BOX_RIGHT (meta_rect 23 0 8 10) - BOX_RIGHT (meta_rect 20 0 10 10)"
    and cy: "cy = BOX_TOP (meta_rect 23 0 8 10) - BOX_TOP (meta_rect 20 0 10 10) \<or>
       cy = BOX_BOTTOM (meta_rect 23 0 8 10) - BOX_BOTTOM (meta_rect 20 0 10 10)"
    by blast
  from cx have "cx = 1" by (auto simp: BOX_LEFT_def BOX_RIGHT_def meta_rect_def)
  moreover from cy have "cy = 0" by (auto simp: BOX_TOP_def BOX_BOTTOM_def meta_rect_def)
  ultimately have "x' = 21" "y' = 0" using l t by auto
  with r each show ?thesis by blast
qed

text \<open>
  The claim as stated says the change with the smaller absolute value is applied. In a
  keyboard snap move of the example window one pixel to the left, the left edge stays
  (change 0) and the right edge snaps from 30 to 25 (change -5); the move is by -5.
\<close>

theorem move_keyboard_snap_larger_change_counterexample:
  "apply_edge_resistance_to_each_side (grab_edge_resistance_data (example_display 25 25))
     example_window (meta_rect 20 0 10 10) (meta_rect 19 0 10 10) 0 True True idle_main_loop =
     Inr ((True, meta_rect 20 0 5 10), example_cache 25 25, idle_main_loop) \<and>
   BOX_LEFT (meta_rect 20 0 5 10) - BOX_LEFT (meta_rect 20 0 10 10) = 0 \<and>
   BOX_RIGHT (meta_rect 20 0 5 10) - BOX_RIGHT (meta_rect 20 0 10 10) = - 5 \<and>
   meta_window_edge_resistance_for_move (\<lambda>w r. r) (example_display 25 25) example_window
     20 0 19 0 0 True True idle_main_loop =
     Inr ((15, 0), (example_display 25 25)\<lparr>grab_last_user_action_was_snap := True\<rparr>,
          idle_main_loop)"
proof -
  have "apply_edge_resistance_to_each_side (grab_edge_resistance_data (example_display 25 25))
     example_window (meta_rect 20 0 10 10) (meta_rect 19 0 10 10) 0 True True idle_main_loop =
     Inr ((True, meta_rect 20 0 5 10), example_cache 25 25, idle_main_loop)"
    by code_simp
  moreover have "meta_window_edge_resistance_for_move (\<lambda>w r. r) (example_display 25 25)
     example_window 20 0 19 0 0 True True idle_main_loop =
     Inr ((15, 0), (example_display 25 25)\<lparr>grab_last_user_action_was_snap := True\<rparr>,
          idle_main_loop)"
    by code_simp
  ultimately show ?thesis by (simp add: BOX_LEFT_def BOX_RIGHT_def meta_rect_def)
qed

subsection \<open>The resistance loop in mouse mode\<close>

lemma mouse_edge_Return:
  "mouse_edge win edge compare new_pos increment ptr tf okay kbe rd ctx = Return v rd1 ctx1 \<Longrightarrow>
   v = compare"
  by (auto simp: mouse_edge_def split: if_splits prod.splits)

lemma mouse_edge_Next:
  "mouse_edge win edge compare new_pos increment ptr tf okay kbe rd ctx = Next_edge o1 k1 rd1 ctx1 \<Longrightarrow>
   allow_past_screen_edge rd1 = allow_past_screen_edge rd"
  by (auto simp: mouse_edge_def g_timeout_add_def split: if_splits prod.splits)

lemma mouse_edge_barrier:
  "edge_type edge = META_EDGE_SCREEN \<Longrightarrow> \<not> allow_past_screen_edge rd \<Longrightarrow>
   movement_towards_edge (side_type edge) increment \<Longrightarrow>
   mouse_edge win edge compare new_pos increment ptr tf okay kbe rd ctx = Return compare rd ctx"
  by (simp add: mouse_edge_def)

lemma mouse_loop_barrier_inc:
  assumes "i \<le> k" "0 \<le> i" "k < int (length edges)" "k \<le> end_index"
    "edge_type (edges ! nat k) = META_EDGE_SCREEN" "edges_align xdir (edges ! nat k) new_rect"
    "movement_towards_edge (side_type (edges ! nat k)) 1" "\<not> allow_past_screen_edge rd"
  shows "\<exists>j rd' ctx'. apply_edge_resistance_loop win new_pos new_rect edges ptr tf xdir False True
            end_index i okay kbe rd ctx = Inr (edge_coord xdir (edges ! nat j), rd', ctx') \<and>
          i \<le> j \<and> j \<le> k"
  using assms
proof (induction "nat (k - i)" arbitrary: i okay kbe rd ctx)
  case 0
  then have ik: "i = k" by simp
  have rd: "g_array_index edges i = Inr (edges ! nat i)"
    using 0 by (simp add: g_array_index_def)
  show ?case
    using 0 ik rd
    by (subst apply_edge_resistance_loop.simps) (auto simp: mouse_edge_barrier)
next
  case (Suc n)
  then have lt: "i < k" by simp
  have rd: "g_array_index edges i = Inr (edges ! nat i)"
    using Suc lt by (simp add: g_array_index_def)
  have n: "n = nat (k - (i + 1))" using Suc(2) by simp
  have cond: "i \<le> end_index" using Suc lt by simp
  show ?case
  proof (cases "edges_align xdir (edges ! nat i) new_rect")
    case False
    from Suc(1)[OF n, of rd okay kbe ctx] Suc(3-) lt
    obtain j rd' ctx' where "apply_edge_resistance_loop win new_pos new_rect edges ptr tf xdir False True
            end_index (i + 1) okay kbe rd ctx = Inr (edge_coord xdir (edges ! nat j), rd', ctx')"
          "i + 1 \<le> j" "j \<le> k" by auto
    then show ?thesis
      using False rd cond
      by (subst apply_edge_resistance_loop.simps) auto
  next
    case True
    show ?thesis
    proof (cases "mouse_edge win (edges ! nat i) (edge_coord xdir (edges ! nat i)) new_pos 1 ptr tf okay kbe rd ctx")
      case (Return v rd1 ctx1)
      then have "v = edge_coord xdir (edges ! nat i)" by (rule mouse_edge_Return)
      then show ?thesis
        using True rd cond Return lt
        by (subst apply_edge_resistance_loop.simps) auto
    next
      case (Next_edge o1 k1 rd1 ctx1)
      then have "\<not> allow_past_screen_edge rd1" using mouse_edge_Next Suc.prems by blast
      from Suc(1)[OF n _ _ Suc.prems(3-7) this, of o1 k1 ctx1] Suc.prems lt
      obtain j rd' ctx' where "apply_edge_resistance_loop win new_pos new_rect edges ptr tf xdir False True
            end_index (i + 1) o1 k1 rd1 ctx1 = Inr (edge_coord xdir (edges ! nat j), rd', ctx')"
          "i + 1 \<le> j" "j \<le> k" by auto
      then show ?thesis
        using True rd cond Next_edge
        by (subst apply_edge_resistance_loop.simps) auto
    qed
  qed
qed

lemma mouse_loop_barrier_dec:
  assumes "k \<le> i" "0 \<le> k" "i < int (length edges)" "end_index \<le> k"
    "edge_type (edges ! nat k) = META_EDGE_SCREEN" "edges_align xdir (edges ! nat k) new_rect"
    "movement_towards_edge (side_type (edges ! nat k)) (- 1)" "\<not> allow_past_screen_edge rd"
  shows "\<exists>j rd' ctx'. apply_edge_resistance_loop win new_pos new_rect edges ptr tf xdir False False
            end_index i okay kbe rd ctx = Inr (edge_coord xdir (edges ! nat j), rd', ctx') \<and>
          k \<le> j \<and> j \<le> i"
  using assms
proof (induction "nat (i - k)" arbitrary: i okay kbe rd ctx)
  case 0
  then have ik: "i = k" by simp
  have rd: "g_array_index edges i = Inr (edges ! nat i)"
    using 0 by (simp add: g_array_index_def)
  show ?case
    using 0 ik rd
    by (subst apply_edge_resistance_loop.simps) (auto simp: mouse_edge_barrier)
next
  case (Suc n)
  then have lt: "k < i" by simp
  have rd: "g_array_index edges i = Inr (edges ! nat i)"
    using Suc lt by (simp add: g_array_index_def)
  have n: "n = nat (i - 1 - k)" using Suc(2) by simp
  have cond: "end_index \<le> i" using Suc lt by simp
  show ?case
  proof (cases "edges_align xdir (edges ! nat i) new_rect")
    case False
    from Suc(1)[OF n, of rd okay kbe ctx] Suc(3-) lt
    obtain j rd' ctx' where "apply_edge_resistance_loop win new_pos new_rect edges ptr tf xdir False False
            end_index (i - 1) okay kbe rd ctx = Inr (edge_coord xdir (edges ! nat j), rd', ctx')"
          "k \<le> j" "j \<le> i - 1" by auto
    then show ?thesis
      using False rd cond
      by (subst apply_edge_resistance_loop.simps) auto
  next
    case True
    show ?thesis
    proof (cases "mouse_edge win (edges ! nat i) (edge_coord xdir (edges ! nat i)) new_pos (- 1) ptr tf okay kbe rd ctx")
      case (Return v rd1 ctx1)
      then have "v = edge_coord xdir (edges ! nat i)" by (rule mouse_edge_Return)
      then show ?thesis
        using True rd cond Return lt
        by (subst apply_edge_resistance_loop.simps) auto
    next
      case (Next_edge o1 k1 rd1 ctx1)
      then have na: "\<not> allow_past_screen_edge rd1" using mouse_edge_Next Suc.prems by blast
      have "k \<le> i - 1" "i - 1 < int (length edges)" using lt Suc.prems by auto
      from Suc(1)[OF n this(1) Suc.prems(2) this(2) Suc.prems(4-7) na, of o1 k1 ctx1]
      obtain j rd' ctx' where "apply_edge_resistance_loop win new_pos new_rect edges ptr tf xdir False False
            end_index (i - 1) o1 k1 rd1 ctx1 = Inr (edge_coord xdir (edges ! nat j), rd', ctx')"
          "k \<le> j" "j \<le> i - 1" by auto
      then show ?thesis
        using True rd cond Next_edge
        by (subst apply_edge_resistance_loop.simps) auto
    qed
  qed
qed


lemma remove_old_timeout_fields:
  "remove_old_timeout old_pos new_pos rd ctx = (rd0, ctx0) \<Longrightarrow>
   allow_past_screen_edge rd0 = allow_past_screen_edge rd \<and>
   keyboard_buildup rd0 = keyboard_buildup rd"
  by (auto simp: remove_old_timeout_def split: if_splits)

lemma edges_sorted_nat:
  "edges_sorted h edges \<Longrightarrow> i \<le> j \<Longrightarrow> j < length edges \<Longrightarrow>
   edge_coord h (edges ! i) \<le> edge_coord h (edges ! j)"
  unfolding edges_sorted_def
  using sorted_nth_mono[of "map (edge_coord h) edges" i j] by auto

text \<open>The range of indices the loop walks holds every edge between the two positions.\<close>

lemma range_increasing:
  assumes ne: "edges \<noteq> []" and so: "edges_sorted xdir edges"
  shows "\<exists>b e. find_index_of_edge_near_position edges old_pos True xdir = Inr b \<and>
           find_index_of_edge_near_position edges new_pos False xdir = Inr e \<and>
           0 \<le> b \<and> e < int (length edges) \<and>
           (\<forall>j. b \<le> j \<and> j \<le> e \<longrightarrow>
                old_pos \<le> edge_coord xdir (edges ! nat j) \<and>
                edge_coord xdir (edges ! nat j) \<le> new_pos) \<and>
           (\<forall>k<length edges. old_pos \<le> edge_coord xdir (edges ! k) \<and>
                edge_coord xdir (edges ! k) \<le> new_pos \<longrightarrow> b \<le> int k \<and> int k \<le> e)"
proof -
  let ?a = "\<lambda>i. edge_coord xdir (edges ! i)"
  obtain b where b: "find_index_of_edge_near_position edges old_pos True xdir = Inr b"
    "(b = int (length edges) \<and> (\<forall>i<length edges. ?a i < old_pos)) \<or>
      (0 \<le> b \<and> b < int (length edges) \<and> old_pos \<le> ?a (nat b) \<and>
       (\<forall>i<length edges. int i < b \<longrightarrow> ?a i < old_pos))"
    using find_index_min_ok[OF ne so, of old_pos] by blast
  obtain e where e: "find_index_of_edge_near_position edges new_pos False xdir = Inr e"
    "(e = - 1 \<and> (\<forall>i<length edges. new_pos < ?a i)) \<or>
      (0 \<le> e \<and> e < int (length edges) \<and> ?a (nat e) \<le> new_pos \<and>
       (\<forall>i<length edges. e < int i \<longrightarrow> new_pos < ?a i))"
    using find_index_max_ok[OF ne so, of new_pos] by blast
  have b0: "0 \<le> b" using b(2) by auto
  have elen: "e < int (length edges)" using e(2) by auto
  have in_range: "old_pos \<le> ?a (nat j) \<and> ?a (nat j) \<le> new_pos" if "b \<le> j" "j \<le> e" for j
  proof -
    have jl: "j < int (length edges)" "0 \<le> j" using that elen b0 by auto
    then have bl: "b < int (length edges)" using that by simp
    then have "old_pos \<le> ?a (nat b)" using b(2) by auto
    moreover have "?a (nat b) \<le> ?a (nat j)"
      using edges_sorted_nat[OF so, of "nat b" "nat j"] that jl b0 by auto
    moreover have "0 \<le> e" using that jl by simp
    then have "?a (nat e) \<le> new_pos" using e(2) by auto
    moreover have "?a (nat j) \<le> ?a (nat e)"
      using edges_sorted_nat[OF so, of "nat j" "nat e"] that jl elen by auto
    ultimately show ?thesis by simp
  qed
  have covers: "b \<le> int k \<and> int k \<le> e"
    if "k < length edges" "old_pos \<le> ?a k" "?a k \<le> new_pos" for k
  proof -
    have "\<not> int k < b" using b(2) that by force
    moreover have "\<not> e < int k" using e(2) that by force
    ultimately show ?thesis by simp
  qed
  show ?thesis using b(1) e(1) b0 elen in_range covers by blast
qed

lemma range_decreasing:
  assumes ne: "edges \<noteq> []" and so: "edges_sorted xdir edges"
  shows "\<exists>b e. find_index_of_edge_near_position edges old_pos False xdir = Inr b \<and>
           find_index_of_edge_near_position edges new_pos True xdir = Inr e \<and>
           0 \<le> e \<and> b < int (length edges) \<and>
           (\<forall>j. e \<le> j \<and> j \<le> b \<longrightarrow>
                new_pos \<le> edge_coord xdir (edges ! nat j) \<and>
                edge_coord xdir (edges ! nat j) \<le> old_pos) \<and>
           (\<forall>k<length edges. new_pos \<le> edge_coord xdir (edges ! k) \<and>
                edge_coord xdir (edges ! k) \<le> old_pos \<longrightarrow> e \<le> int k \<and> int k \<le> b)"
  using range_increasing[OF ne so, of new_pos old_pos] by blast

text \<open>
  C4 (as amended). In a mouse-mode call of apply_edge_resistance on a non-empty sorted edge
  array, for a side whose \<open>allow_past_screen_edge\<close> is false: if the array holds a
  Screen edge at coordinate E that is aligned with the proposed rectangle, that the
  movement goes towards (movement_towards_edge for the edge's side), and that lies between
  \<open>old_pos\<close> and \<open>new_pos\<close> with \<open>new_pos\<close> beyond it, then the call returns, and
  the coordinate it returns is between \<open>old_pos\<close> and E: never beyond E.
\<close>

theorem screen_edge_is_barrier:
  assumes ne: "edges \<noteq> []" and so: "edges_sorted xdir edges"
      and e: "e \<in> set edges" "edge_type e = META_EDGE_SCREEN" "edges_align xdir e new_rect"
      and tw: "movement_towards_edge (side_type e) (if new_pos > old_pos then 1 else - 1)"
      and na: "\<not> allow_past_screen_edge resistance_data"
      and btw: "(old_pos \<le> edge_coord xdir e \<and> edge_coord xdir e < new_pos) \<or>
            (new_pos < edge_coord xdir e \<and> edge_coord xdir e \<le> old_pos)"
  shows "\<exists>v rd' ctx'.
           apply_edge_resistance win old_pos new_pos new_rect edges ptr resistance_data
             timeout_fn xdir False ctx = Inr (v, rd', ctx') \<and>
           (if new_pos > old_pos then old_pos \<le> v \<and> v \<le> edge_coord xdir e
            else edge_coord xdir e \<le> v \<and> v \<le> old_pos)"
proof -
  obtain k where k: "k < length edges" "edges ! k = e"
    using e(1) by (auto simp: in_set_conv_nth)
  obtain rd0 ctx0 where r0: "remove_old_timeout old_pos new_pos resistance_data ctx = (rd0, ctx0)"
    by (cases "remove_old_timeout old_pos new_pos resistance_data ctx") auto
  then have na0: "\<not> allow_past_screen_edge rd0" using remove_old_timeout_fields na by blast
  show ?thesis
  proof (cases "new_pos > old_pos")
    case True
    with btw have in_r: "old_pos \<le> edge_coord xdir (edges ! k)" "edge_coord xdir (edges ! k) \<le> new_pos"
      using k by auto
    obtain b en where be: "find_index_of_edge_near_position edges old_pos True xdir = Inr b"
       "find_index_of_edge_near_position edges new_pos False xdir = Inr en"
       "0 \<le> b" "en < int (length edges)"
       "\<forall>j. b \<le> j \<and> j \<le> en \<longrightarrow> old_pos \<le> edge_coord xdir (edges ! nat j) \<and>
                edge_coord xdir (edges ! nat j) \<le> new_pos"
       "b \<le> int k" "int k \<le> en"
      using range_increasing[OF ne so, of old_pos new_pos] k(1) in_r by blast
    have tw1: "movement_towards_edge (side_type (edges ! nat (int k))) 1" using tw True k by simp
    from mouse_loop_barrier_inc[OF be(6) be(3) _ be(7) _ _ tw1 na0, of xdir new_rect win new_pos ptr
        timeout_fn False G_MAXINT ctx0] k e
    obtain j rd' ctx' where j: "apply_edge_resistance_loop win new_pos new_rect edges ptr timeout_fn xdir
        False True en b False G_MAXINT rd0 ctx0 = Inr (edge_coord xdir (edges ! nat j), rd', ctx')"
       "b \<le> j" "j \<le> int k" by auto
    have "old_pos \<le> edge_coord xdir (edges ! nat j)" using be(5) j(2,3) be(7) by auto
    moreover have "edge_coord xdir (edges ! nat j) \<le> edge_coord xdir e"
      using edges_sorted_nat[OF so, of "nat j" k] j k be(3) by auto
    ultimately show ?thesis
      using True j(1) be(1,2) r0 by (auto simp: apply_edge_resistance_def)
  next
    case False
    with btw have in_r: "new_pos \<le> edge_coord xdir (edges ! k)" "edge_coord xdir (edges ! k) \<le> old_pos"
      and neq: "old_pos \<noteq> new_pos"
      using k by auto
    obtain b en where be: "find_index_of_edge_near_position edges old_pos False xdir = Inr b"
       "find_index_of_edge_near_position edges new_pos True xdir = Inr en"
       "0 \<le> en" "b < int (length edges)"
       "\<forall>j. en \<le> j \<and> j \<le> b \<longrightarrow> new_pos \<le> edge_coord xdir (edges ! nat j) \<and>
                edge_coord xdir (edges ! nat j) \<le> old_pos"
       "en \<le> int k" "int k \<le> b"
      using range_decreasing[OF ne so, of old_pos new_pos] k(1) in_r by blast
    have tw1: "movement_towards_edge (side_type (edges ! nat (int k))) (- 1)" using tw False k by simp
    from mouse_loop_barrier_dec[OF be(7) _ be(4) be(6) _ _ tw1 na0, of xdir new_rect win new_pos ptr
        timeout_fn False G_MAXINT ctx0] k e
    obtain j rd' ctx' where j: "apply_edge_resistance_loop win new_pos new_rect edges ptr timeout_fn xdir
        False False en b False G_MAXINT rd0 ctx0 = Inr (edge_coord xdir (edges ! nat j), rd', ctx')"
       "int k \<le> j" "j \<le> b" by auto
    have "edge_coord xdir (edges ! nat j) \<le> old_pos" using be(5) j(2,3) be(6) by auto
    moreover have "edge_coord xdir e \<le> edge_coord xdir (edges ! nat j)"
      using edges_sorted_nat[OF so, of k "nat j"] j k be(4) by auto
    ultimately show ?thesis
      using False neq j(1) be(1,2) r0 by (auto simp: apply_edge_resistance_def)
  qed
qed

text \<open>
  The right side moves from 90 to 200 across an aligned screen edge at 100 and is stopped
  at 100.
\<close>

theorem screen_edge_is_barrier_witness:
  "apply_edge_resistance example_window 90 200 (meta_rect 190 0 10 10) [right_screen_edge 100 0]
     RIGHT_DATA example_data 0 True False idle_main_loop =
     Inr (100, example_data, idle_main_loop)"
proof -
  have "[right_screen_edge 100 0] \<noteq> []" by simp
  moreover have "edges_sorted True [right_screen_edge 100 0]" by (simp add: edges_sorted_def)
  moreover have "right_screen_edge 100 0 \<in> set [right_screen_edge 100 0]" by simp
  moreover have "edge_type (right_screen_edge 100 0) = META_EDGE_SCREEN"
    by (simp add: right_screen_edge_def)
  moreover have "edges_align True (right_screen_edge 100 0) (meta_rect 190 0 10 10)"
    by (simp add: right_screen_edge_def edges_align_def meta_rectangle_vert_overlap_def meta_rect_def)
  moreover have "movement_towards_edge (side_type (right_screen_edge 100 0))
      (if (200::int) > 90 then 1 else - 1)"
    by (simp add: right_screen_edge_def movement_towards_edge_def)
  moreover have "\<not> allow_past_screen_edge example_data" by (simp add: example_data_def)
  moreover have "(90 \<le> edge_coord True (right_screen_edge 100 0) \<and>
      edge_coord True (right_screen_edge 100 0) < 200) \<or>
     (200 < edge_coord True (right_screen_edge 100 0) \<and>
      edge_coord True (right_screen_edge 100 0) \<le> 90)"
    by (simp add: right_screen_edge_def edge_coord_def meta_rect_def)
  ultimately have "\<exists>v rd' ctx'.
           apply_edge_resistance example_window 90 200 (meta_rect 190 0 10 10)
             [right_screen_edge 100 0] RIGHT_DATA example_data 0 True False idle_main_loop =
             Inr (v, rd', ctx') \<and>
           (if (200::int) > 90 then 90 \<le> v \<and> v \<le> edge_coord True (right_screen_edge 100 0)
            else edge_coord True (right_screen_edge 100 0) \<le> v \<and> v \<le> 90)"
    by (rule screen_edge_is_barrier)
  moreover have "apply_edge_resistance example_window 90 200 (meta_rect 190 0 10 10)
     [right_screen_edge 100 0] RIGHT_DATA example_data 0 True False idle_main_loop =
     Inr (100, example_data, idle_main_loop)"
    by code_simp
  ultimately show ?thesis by simp
qed

text \<open>
  The claim as stated asks only for a Screen edge between the two positions. A screen edge
  at 100 whose span (\<open>y\<close> from 500 to 600) does not overlap the proposed rectangle
  (\<open>y\<close> from 0 to 10) is skipped by the loop, and the side moves on to 200.
\<close>

theorem screen_edge_not_aligned_counterexample:
  "edge_type (right_screen_edge 100 500) = META_EDGE_SCREEN \<and>
   edge_coord True (right_screen_edge 100 500) = 100 \<and>
   movement_towards_edge (side_type (right_screen_edge 100 500)) 1 \<and>
   \<not> allow_past_screen_edge example_data \<and>
   apply_edge_resistance example_window 90 200 (meta_rect 190 0 10 10)
     [right_screen_edge 100 500] RIGHT_DATA example_data 0 True False idle_main_loop =
     Inr (200, example_data, idle_main_loop)"
proof -
  have "apply_edge_resistance example_window 90 200 (meta_rect 190 0 10 10)
     [right_screen_edge 100 500] RIGHT_DATA example_data 0 True False idle_main_loop =
     Inr (200, example_data, idle_main_loop)"
    by code_simp
  then show ?thesis
    by (simp add: right_screen_edge_def edge_coord_def meta_rect_def movement_towards_edge_def
        example_data_def)
qed

subsection \<open>The resistance loop in keyboard mode\<close>

lemma loop_done:
  assumes "\<not> ((increasing \<and> i \<le> end_index) \<or> (\<not> increasing \<and> i \<ge> end_index))"
  shows "apply_edge_resistance_loop win new_pos new_rect edges ptr tf xdir keyboard_op increasing
     end_index i okay kbe rd ctx =
   Inr (new_pos, (if okay \<and> new_pos \<noteq> kbe then rd\<lparr>keyboard_buildup := 0\<rparr> else rd), ctx)"
  by (subst apply_edge_resistance_loop.simps) (simp only: assms if_False)

lemma loop_skip:
  assumes "(increasing \<and> i \<le> end_index) \<or> (\<not> increasing \<and> i \<ge> end_index)"
      and "g_array_index edges i = Inr edge" and "\<not> edges_align xdir edge new_rect"
  shows "apply_edge_resistance_loop win new_pos new_rect edges ptr tf xdir keyboard_op increasing
     end_index i okay kbe rd ctx =
   apply_edge_resistance_loop win new_pos new_rect edges ptr tf xdir keyboard_op increasing
     end_index (i + (if increasing then 1 else - 1)) okay kbe rd ctx"
  by (subst apply_edge_resistance_loop.simps)
     (simp only: assms if_True sum.case not_False_eq_True)













subsection \<open>Edge extraction\<close>

lemma obscuring_loop_eq:
  "obscuring_loop display ws p ow st =
     (rev (map outer_rect (filter (\<lambda>v. WINDOW_EDGES_RELEVANT v display) ws)) @ ow,
      rev (relevant_positions display ws p) @ st)"
  by (induction ws arbitrary: p ow st) auto

lemma relevant_positions_ge:
  "q \<in> set (relevant_positions display ws p) \<Longrightarrow> p \<le> q"
proof (induction ws arbitrary: p)
  case Nil
  then show ?case by simp
next
  case (Cons w ws)
  from Cons.prems have "q = p \<or> q \<in> set (relevant_positions display ws (p + 1))"
    by (simp split: if_splits)
  then show ?case using Cons.IH[of "p + 1"] by auto
qed

lemma skip_lower_windows_eq:
  assumes "length X = length Y" "\<forall>q\<in>set Y. q \<le> p" "\<forall>q\<in>set P. p < q"
  shows "skip_lower_windows p (X @ R) (Y @ P) = Inr (R, P)"
  using assms
proof (induction X Y rule: list_induct2)
  case Nil
  then show ?case by (cases P) auto
next
  case (Cons x xs y ys)
  then show ?case by simp
qed

lemma window_edges_loop_eq:
  assumes "length X = length Y" "\<forall>q\<in>set Y. q < p"
  shows "window_edges_loop intersect remove_intersections display ws p
           (X @ map outer_rect (filter (\<lambda>v. WINDOW_EDGES_RELEVANT v display) ws))
           (Y @ relevant_positions display ws p) edges =
         Inr (emitted_edges intersect remove_intersections display ws @ edges)"
  using assms
proof (induction ws arbitrary: p X Y edges)
  case Nil
  then show ?case by simp
next
  case (Cons w ws)
  let ?R = "map outer_rect (filter (\<lambda>v. WINDOW_EDGES_RELEVANT v display) ws)"
  let ?P = "relevant_positions display ws (p + 1)"
  show ?case
  proof (cases "WINDOW_EDGES_RELEVANT w display")
    case rel: True
    have skip: "skip_lower_windows p (X @ outer_rect w # ?R) (Y @ p # ?P) = Inr (?R, ?P)"
    proof -
      have "skip_lower_windows p ((X @ [outer_rect w]) @ ?R) ((Y @ [p]) @ ?P) = Inr (?R, ?P)"
      proof (rule skip_lower_windows_eq)
        show "length (X @ [outer_rect w]) = length (Y @ [p])" using Cons.prems by simp
        show "\<forall>q\<in>set (Y @ [p]). q \<le> p" using Cons.prems by auto
        show "\<forall>q\<in>set ?P. p < q"
        proof
          fix q assume "q \<in> set ?P"
          then have "p + 1 \<le> q" by (rule relevant_positions_ge)
          then show "p < q" by simp
        qed
      qed
      then show ?thesis by simp
    qed
    show ?thesis
    proof (cases "window_type w \<noteq> META_WINDOW_DOCK")
      case True
      have "window_edges_loop intersect remove_intersections display ws (p + 1)
           ([] @ ?R) ([] @ ?P)
           (remove_intersections
                  (window_new_edges (intersect (outer_rect w) (screen_rect (grab_screen display))))
                  ?R @ edges) =
         Inr (emitted_edges intersect remove_intersections display ws @
              (remove_intersections
                  (window_new_edges (intersect (outer_rect w) (screen_rect (grab_screen display))))
                  ?R @ edges))"
        by (rule Cons.IH) simp_all
      then show ?thesis using rel True skip by simp
    next
      case False
      have "window_edges_loop intersect remove_intersections display ws (p + 1)
           ((X @ [outer_rect w]) @ ?R) ((Y @ [p]) @ ?P) edges =
         Inr (emitted_edges intersect remove_intersections display ws @ edges)"
        by (rule Cons.IH) (use Cons.prems in auto)
      then show ?thesis using rel False by simp
    qed
  next
    case False
    have "window_edges_loop intersect remove_intersections display ws (p + 1)
           (X @ ?R) (Y @ ?P) edges =
         Inr (emitted_edges intersect remove_intersections display ws @ edges)"
      by (rule Cons.IH) (use Cons.prems in auto)
    then show ?thesis using False by simp
  qed
qed

lemma compute_window_edges_eq:
  "compute_window_edges intersect remove_intersections display =
     Inr (emitted_edges intersect remove_intersections display
            (stack_list_windows (grab_screen display)))"
  using window_edges_loop_eq[of "[]" "[]" 0 intersect remove_intersections display
      "stack_list_windows (grab_screen display)" "[]"]
  by (simp add: compute_window_edges_def obscuring_loop_eq)

lemma emitted_edges_by_position:
  "emitted_edges intersect remove_intersections display ws =
     concat (rev (map
       (\<lambda>i. remove_intersections
               (window_new_edges
                  (intersect (outer_rect (ws ! i)) (screen_rect (grab_screen display))))
               (map outer_rect
                  (filter (\<lambda>v. WINDOW_EDGES_RELEVANT v display) (drop (Suc i) ws))))
       (filter (\<lambda>i. WINDOW_EDGES_RELEVANT (ws ! i) display \<and>
                     window_type (ws ! i) \<noteq> META_WINDOW_DOCK) [0..<length ws])))"
proof (induction ws)
  case Nil
  then show ?case by simp
next
  case (Cons w ws)
  have upt: "[0..<length (w # ws)] = 0 # map Suc [0..<length ws]"
    by (simp add: upt_conv_Cons map_Suc_upt del: upt_Suc)
  show ?case
    unfolding upt
    by (simp add: Cons.IH filter_map comp_def del: upt_Suc)
qed

text \<open>
  C7. The list of window edges that meta_display_compute_resistance_and_snapping_edges
  builds is made of the contributions of exactly those windows of the stack that should be
  showing, are on the screen of the grab, are not the grabbed window and are not of type
  Desktop, Menu, Splashscreen or Dock: each such window gives its four edges (of its outer
  rectangle cut to the screen), less what the relevant windows above it cover, and no other
  window gives an edge.
\<close>

theorem window_edges_come_from_relevant_windows:
  assumes "ws = stack_list_windows (grab_screen display)"
  shows "compute_window_edges intersect remove_intersections display =
     Inr (concat (rev (map
       (\<lambda>i. remove_intersections
               (window_new_edges
                  (intersect (outer_rect (ws ! i)) (screen_rect (grab_screen display))))
               (map outer_rect
                  (filter (\<lambda>v. WINDOW_EDGES_RELEVANT v display) (drop (Suc i) ws))))
       (filter
          (\<lambda>i. should_be_showing (ws ! i) \<and>
               screen (ws ! i) = screen_number (grab_screen display) \<and>
               xwindow (ws ! i) \<noteq> xwindow (grab_window display) \<and>
               window_type (ws ! i) \<noteq> META_WINDOW_DESKTOP \<and>
               window_type (ws ! i) \<noteq> META_WINDOW_MENU \<and>
               window_type (ws ! i) \<noteq> META_WINDOW_SPLASHSCREEN \<and>
               window_type (ws ! i) \<noteq> META_WINDOW_DOCK)
          [0..<length ws]))))"
proof -
  have "(\<lambda>i. should_be_showing (ws ! i) \<and>
               screen (ws ! i) = screen_number (grab_screen display) \<and>
               xwindow (ws ! i) \<noteq> xwindow (grab_window display) \<and>
               window_type (ws ! i) \<noteq> META_WINDOW_DESKTOP \<and>
               window_type (ws ! i) \<noteq> META_WINDOW_MENU \<and>
               window_type (ws ! i) \<noteq> META_WINDOW_SPLASHSCREEN \<and>
               window_type (ws ! i) \<noteq> META_WINDOW_DOCK) =
        (\<lambda>i. WINDOW_EDGES_RELEVANT (ws ! i) display \<and> window_type (ws ! i) \<noteq> META_WINDOW_DOCK)"
    by (auto simp: WINDOW_EDGES_RELEVANT_def)
  then show ?thesis
    by (simp only: compute_window_edges_eq assms[symmetric]
        emitted_edges_by_position[of intersect remove_intersections display ws])
qed

text \<open>
  A stack of a desktop window, a normal window, the grabbed window, a dock and a menu, with
  nothing cut off: the edges are the four edges of the normal window.
\<close>

theorem window_edges_come_from_relevant_windows_witness:
  "compute_window_edges (\<lambda>a b. a) (\<lambda>es rs. es) stack_display =
     Inr (window_new_edges (meta_rect 100 100 200 200))"
proof -
  note t = window_edges_come_from_relevant_windows[OF refl, of "\<lambda>a b. a" "\<lambda>es rs. es"
      stack_display]
  have "compute_window_edges (\<lambda>a b. a) (\<lambda>es rs. es) stack_display =
     Inr (window_new_edges (meta_rect 100 100 200 200))"
    by code_simp
  then show ?thesis using t by simp
qed

subsection \<open>Timers\<close>

lemma timer_inv_at_most_one:
  assumes "timer_inv ptr rd ctx"
  shows "length (filter (\<lambda>s. source_data s = ptr) (sources ctx)) \<le> 1"
proof -
  let ?xs = "filter (\<lambda>s. source_data s = ptr) (sources ctx)"
  have d: "distinct (map source_id ?xs)"
    using assms by (simp add: timer_inv_def distinct_map_filter)
  have "\<forall>s\<in>set ?xs. source_id s = timeout_id rd"
    using assms by (auto simp: timer_inv_def)
  then have "set (map source_id ?xs) \<subseteq> {timeout_id rd}" by auto
  then have "card (set (map source_id ?xs)) \<le> card {timeout_id rd}"
    by (intro card_mono) simp_all
  then have "card (set (map source_id ?xs)) \<le> 1" by simp
  then show ?thesis using distinct_card[OF d] by simp
qed

lemma keyboard_edge_timers:
  "keyboard_edge edge compare new_pos increment okay kbe rd ctx = Return v rd1 ctx1 \<or>
   keyboard_edge edge compare new_pos increment okay kbe rd ctx = Next_edge o1 k1 rd1 ctx1 \<Longrightarrow>
   ctx1 = ctx \<and> timeout_setup rd1 = timeout_setup rd \<and> timeout_id rd1 = timeout_id rd"
  by (auto simp: keyboard_edge_def Let_def split: if_splits)

lemma timer_inv_cong:
  "timer_inv ptr rd ctx \<Longrightarrow> timeout_setup rd1 = timeout_setup rd \<Longrightarrow>
   timeout_id rd1 = timeout_id rd \<Longrightarrow> timer_inv ptr rd1 ctx"
  by (simp add: timer_inv_def)

lemma timer_inv_arm:
  assumes "timer_inv ptr rd ctx" "\<not> timeout_setup rd"
      and "g_timeout_add ms ptr ctx = (tag, ctx1)"
      and "timeout_setup rd1" "timeout_id rd1 = tag"
  shows "timer_inv ptr rd1 ctx1 \<and> other_sources ptr ctx1 = other_sources ptr ctx \<and>
         next_source_id ctx \<le> next_source_id ctx1"
proof -
  have none: "\<forall>s\<in>set (sources ctx). source_data s \<noteq> ptr"
    using assms(1,2) by (auto simp: timer_inv_def)
  have c1: "ctx1 = ctx\<lparr>next_source_id := next_source_id ctx + 1,
          sources := sources ctx @
            [\<lparr>source_id = next_source_id ctx, source_interval = ms, source_data = ptr\<rparr>]\<rparr>"
    and tag: "tag = next_source_id ctx"
    using assms(3) by (auto simp: g_timeout_add_def)
  have "next_source_id ctx \<notin> source_id ` set (sources ctx)"
    using assms(1) by (auto simp: timer_inv_def)
  then show ?thesis
    using assms(1,4,5) none
    by (auto simp: timer_inv_def other_sources_def c1 tag)
qed

lemma mouse_edge_timers:
  assumes inv: "timer_inv ptr rd ctx"
      and out: "mouse_edge win edge compare new_pos increment ptr tf okay kbe rd ctx = Return v rd1 ctx1 \<or>
           mouse_edge win edge compare new_pos increment ptr tf okay kbe rd ctx = Next_edge o1 k1 rd1 ctx1"
  shows "timer_inv ptr rd1 ctx1 \<and> other_sources ptr ctx1 = other_sources ptr ctx \<and>
         next_source_id ctx \<le> next_source_id ctx1"
proof (cases "edge_type edge = META_EDGE_SCREEN \<and> \<not> allow_past_screen_edge rd \<and>
         movement_towards_edge (side_type edge) increment")
  case True
  with out have "rd1 = rd \<and> ctx1 = ctx" by (auto simp: mouse_edge_def)
  then show ?thesis using inv by simp
next
  case nb: False
  show ?thesis
  proof (cases "movement_towards_edge (side_type edge) increment \<and>
                  \<not> timeout_setup rd \<and> timeout_length_ms win edge \<noteq> 0")
    case True
    obtain tag c where g: "g_timeout_add (timeout_length_ms win edge) ptr ctx = (tag, c)"
      by (cases "g_timeout_add (timeout_length_ms win edge) ptr ctx") auto
    let ?rd = "rd\<lparr>timeout_id := tag, timeout_setup := True,
                            timeout_edge_pos := compare, timeout_over := False,
                            timeout_func := tf, window := win\<rparr>"
    from out True g nb have "rd1 = ?rd \<and> ctx1 = c"
      by (auto simp: mouse_edge_def split: if_splits)
    then show ?thesis
      using timer_inv_arm[OF inv _ g, of ?rd] True by simp
  next
    case False
    from out False nb have "rd1 = rd \<and> ctx1 = ctx"
      by (auto simp: mouse_edge_def split: if_splits)
    then show ?thesis using inv by simp
  qed
qed

lemma remove_old_timeout_timers:
  assumes inv: "timer_inv ptr rd ctx"
      and r: "remove_old_timeout old_pos new_pos rd ctx = (rd0, ctx0)"
  shows "timer_inv ptr rd0 ctx0 \<and> other_sources ptr ctx0 = other_sources ptr ctx \<and>
         next_source_id ctx \<le> next_source_id ctx0"
proof -
  have i0: "0 < next_source_id ctx"
    and i1: "\<forall>s\<in>set (sources ctx). 0 < source_id s \<and> source_id s < next_source_id ctx"
    and i2: "distinct (map source_id (sources ctx))"
    and ids: "\<forall>s\<in>set (sources ctx). source_data s = ptr \<longrightarrow>
                timeout_setup rd \<and> timeout_id rd = source_id s"
    and i4: "timeout_setup rd \<and> timeout_id rd \<noteq> 0 \<longrightarrow>
         (\<exists>s\<in>set (sources ctx). source_id s = timeout_id rd \<and> source_data s = ptr)"
    using inv unfolding timer_inv_def by simp_all
  let ?stale = "timeout_setup rd \<and>
         ((timeout_edge_pos rd > old_pos \<and> timeout_edge_pos rd > new_pos) \<or>
          (timeout_edge_pos rd < old_pos \<and> timeout_edge_pos rd < new_pos))"
  have r': "(rd0, ctx0) =
      (if ?stale then
        (if timeout_id rd \<noteq> 0
         then (rd\<lparr>timeout_setup := False, timeout_id := 0\<rparr>,
               g_source_remove (timeout_id rd) ctx)
         else (rd\<lparr>timeout_setup := False\<rparr>, ctx))
      else (rd, ctx))"
    using r unfolding remove_old_timeout_def by simp
  show ?thesis
  proof (cases ?stale)
    case False
    from r' False have "(rd0, ctx0) = (rd, ctx)" by simp
    then have "rd0 = rd" "ctx0 = ctx" by simp_all
    then show ?thesis using inv by simp
  next
    case True
    show ?thesis
    proof (cases "timeout_id rd \<noteq> 0")
      case z: False
      from r' True z have "(rd0, ctx0) = (rd\<lparr>timeout_setup := False\<rparr>, ctx)" by simp
      then have e: "rd0 = rd\<lparr>timeout_setup := False\<rparr>" "ctx0 = ctx" by simp_all
      have none: "\<forall>s\<in>set (sources ctx). source_data s \<noteq> ptr"
      proof
        fix s assume s: "s \<in> set (sources ctx)"
        show "source_data s \<noteq> ptr"
        proof
          assume "source_data s = ptr"
          then have "timeout_id rd = source_id s" using ids s by simp
          moreover have "0 < source_id s" using i1 s by simp
          ultimately show False using z by simp
        qed
      qed
      have "timer_inv ptr rd0 ctx0"
        unfolding timer_inv_def e using i0 i1 i2 none by simp
      then show ?thesis using e by simp
    next
      case nz: True
      from r' True nz have "(rd0, ctx0) = (rd\<lparr>timeout_setup := False, timeout_id := 0\<rparr>,
               g_source_remove (timeout_id rd) ctx)" by simp
      then have e: "rd0 = rd\<lparr>timeout_setup := False, timeout_id := 0\<rparr>"
        "ctx0 = g_source_remove (timeout_id rd) ctx" by simp_all
      have src: "sources ctx0 = filter (\<lambda>s. source_id s \<noteq> timeout_id rd) (sources ctx)"
        and nxt: "next_source_id ctx0 = next_source_id ctx"
        unfolding e(2) g_source_remove_def by simp_all
      obtain s0 where s0: "s0 \<in> set (sources ctx)" "source_id s0 = timeout_id rd"
          "source_data s0 = ptr"
        using i4 True nz by auto
      have uniq: "x = s0" if "x \<in> set (sources ctx)" "source_id x = timeout_id rd" for x
        using i2 s0(1,2) that by (simp add: distinct_map inj_on_def)
      have gone: "\<forall>s\<in>set (sources ctx0). source_data s \<noteq> ptr"
      proof
        fix s assume "s \<in> set (sources ctx0)"
        then have s: "s \<in> set (sources ctx)" "source_id s \<noteq> timeout_id rd"
          unfolding src by simp_all
        show "source_data s \<noteq> ptr" using ids s by auto
      qed
      have others: "other_sources ptr ctx0 = other_sources ptr ctx"
        unfolding other_sources_def src filter_filter
      proof (rule filter_cong[OF refl])
        fix x assume x: "x \<in> set (sources ctx)"
        show "(source_id x \<noteq> timeout_id rd \<and> source_data x \<noteq> ptr) = (source_data x \<noteq> ptr)"
          using uniq[OF x] s0(3) by auto
      qed
      have a: "\<forall>s\<in>set (sources ctx0). 0 < source_id s \<and> source_id s < next_source_id ctx0"
        unfolding src nxt using i1 by simp
      have b: "distinct (map source_id (sources ctx0))"
        unfolding src using i2 by (rule distinct_map_filter)
      have "timer_inv ptr rd0 ctx0"
        unfolding timer_inv_def using a b gone i0 nxt by (simp add: e(1))
      then show ?thesis using others nxt by simp
    qed
  qed
qed


lemma loop_aligned:
  assumes "(increasing \<and> i \<le> end_index) \<or> (\<not> increasing \<and> i \<ge> end_index)"
      and "g_array_index edges i = Inr edge" and "edges_align xdir edge new_rect"
  shows "apply_edge_resistance_loop win new_pos new_rect edges ptr tf xdir keyboard_op increasing
     end_index i okay kbe rd ctx =
   (case (if keyboard_op
          then keyboard_edge edge (edge_coord xdir edge) new_pos (if increasing then 1 else - 1)
                 okay kbe rd ctx
          else mouse_edge win edge (edge_coord xdir edge) new_pos (if increasing then 1 else - 1)
                 ptr tf okay kbe rd ctx) of
      Return v rd1 ctx1 \<Rightarrow> Inr (v, rd1, ctx1)
    | Next_edge okay1 edge1 rd1 ctx1 \<Rightarrow>
        apply_edge_resistance_loop win new_pos new_rect edges ptr tf xdir keyboard_op increasing
          end_index (i + (if increasing then 1 else - 1)) okay1 edge1 rd1 ctx1)"
  by (subst apply_edge_resistance_loop.simps)
     (simp only: assms if_True if_False sum.case not_True_eq_False)

lemma loop_read_error:
  assumes "(increasing \<and> i \<le> end_index) \<or> (\<not> increasing \<and> i \<ge> end_index)"
      and "g_array_index edges i = Inl e"
  shows "apply_edge_resistance_loop win new_pos new_rect edges ptr tf xdir keyboard_op increasing
     end_index i okay kbe rd ctx = Inl e"
  by (subst apply_edge_resistance_loop.simps) (simp only: assms if_True sum.case)

lemma edge_timers:
  assumes inv: "timer_inv ptr rd ctx"
      and out: "(if keyboard_op
          then keyboard_edge edge compare new_pos increment okay kbe rd ctx
          else mouse_edge win edge compare new_pos increment ptr tf okay kbe rd ctx) = oc"
      and oc: "oc = Return v rd1 ctx1 \<or> oc = Next_edge o1 k1 rd1 ctx1"
  shows "timer_inv ptr rd1 ctx1 \<and> other_sources ptr ctx1 = other_sources ptr ctx \<and>
         next_source_id ctx \<le> next_source_id ctx1"
proof (cases keyboard_op)
  case True
  with out oc have "keyboard_edge edge compare new_pos increment okay kbe rd ctx = Return v rd1 ctx1 \<or>
   keyboard_edge edge compare new_pos increment okay kbe rd ctx = Next_edge o1 k1 rd1 ctx1"
    by auto
  from keyboard_edge_timers[OF this]
  have "ctx1 = ctx" "timeout_setup rd1 = timeout_setup rd" "timeout_id rd1 = timeout_id rd"
    by simp_all
  then show ?thesis using timer_inv_cong[OF inv, of rd1] by simp
next
  case False
  with out oc have "mouse_edge win edge compare new_pos increment ptr tf okay kbe rd ctx = Return v rd1 ctx1 \<or>
           mouse_edge win edge compare new_pos increment ptr tf okay kbe rd ctx = Next_edge o1 k1 rd1 ctx1"
    by auto
  from mouse_edge_timers[OF inv this] show ?thesis .
qed

lemma loop_timers:
  assumes "timer_inv ptr rd ctx"
      and "apply_edge_resistance_loop win new_pos new_rect edges ptr tf xdir keyboard_op increasing
             end_index i okay kbe rd ctx = Inr (v, rd', ctx')"
  shows "timer_inv ptr rd' ctx' \<and> other_sources ptr ctx' = other_sources ptr ctx \<and>
         next_source_id ctx \<le> next_source_id ctx'"
  using assms
proof (induction "nat (if increasing then end_index + 1 - i else i + 1 - end_index)"
    arbitrary: i okay kbe rd ctx)
  case 0
  then have nc: "\<not> ((increasing \<and> i \<le> end_index) \<or> (\<not> increasing \<and> i \<ge> end_index))"
    by (cases increasing) auto
  have "timeout_setup rd' = timeout_setup rd \<and> timeout_id rd' = timeout_id rd \<and> ctx' = ctx"
    using 0(3) unfolding loop_done[OF nc] by (auto split: if_splits)
  then have "timeout_setup rd' = timeout_setup rd" "timeout_id rd' = timeout_id rd" "ctx' = ctx"
    by simp_all
  then show ?case using timer_inv_cong[OF 0(2), of rd'] by simp
next
  case (Suc n)
  let ?i' = "i + (if increasing then 1 else - 1)"
  have cond: "(increasing \<and> i \<le> end_index) \<or> (\<not> increasing \<and> i \<ge> end_index)"
    using Suc(2) by (cases increasing) auto
  have n: "n = nat (if increasing then end_index + 1 - ?i' else ?i' + 1 - end_index)"
    using Suc(2) by (cases increasing) auto
  show ?case
  proof (cases "g_array_index edges i")
    case (Inl e)
    from Suc(4) show ?thesis unfolding loop_read_error[OF cond Inl] by simp
  next
    case (Inr edge)
    show ?thesis
    proof (cases "edges_align xdir edge new_rect")
      case False
      from Suc(4) have "apply_edge_resistance_loop win new_pos new_rect edges ptr tf xdir
          keyboard_op increasing end_index ?i' okay kbe rd ctx = Inr (v, rd', ctx')"
        unfolding loop_skip[OF cond Inr False] .
      from Suc(1)[OF n Suc(3) this] show ?thesis .
    next
      case True
      define oc where "oc = (if keyboard_op
          then keyboard_edge edge (edge_coord xdir edge) new_pos (if increasing then 1 else - 1)
                 okay kbe rd ctx
          else mouse_edge win edge (edge_coord xdir edge) new_pos (if increasing then 1 else - 1)
                 ptr tf okay kbe rd ctx)"
      have step: "(case oc of
            Return v rd1 ctx1 \<Rightarrow> Inr (v, rd1, ctx1)
          | Next_edge okay1 edge1 rd1 ctx1 \<Rightarrow>
              apply_edge_resistance_loop win new_pos new_rect edges ptr tf xdir keyboard_op
                increasing end_index ?i' okay1 edge1 rd1 ctx1) = Inr (v, rd', ctx')"
        using Suc(4) unfolding loop_aligned[OF cond Inr True] oc_def .
      show ?thesis
      proof (cases oc)
        case (Return v1 rd1 ctx1)
        with step have "v1 = v" "rd1 = rd'" "ctx1 = ctx'" by simp_all
        with Return have "oc = Return v rd' ctx' \<or> oc = Next_edge False 0 rd' ctx'" by simp
        from edge_timers[OF Suc(3) oc_def[symmetric] this] show ?thesis .
      next
        case (Next_edge o1 k1 rd1 ctx1)
        then have "oc = Return 0 rd1 ctx1 \<or> oc = Next_edge o1 k1 rd1 ctx1" by simp
        from edge_timers[OF Suc(3) oc_def[symmetric] this]
        have a: "timer_inv ptr rd1 ctx1" "other_sources ptr ctx1 = other_sources ptr ctx"
          "next_source_id ctx \<le> next_source_id ctx1" by simp_all
        from step Next_edge have "apply_edge_resistance_loop win new_pos new_rect edges ptr tf
            xdir keyboard_op increasing end_index ?i' o1 k1 rd1 ctx1 = Inr (v, rd', ctx')"
          by simp
        from Suc(1)[OF n a(1) this] a(2,3) show ?thesis by simp
      qed
    qed
  qed
qed

lemma apply_edge_resistance_timers:
  assumes inv: "timer_inv ptr rd ctx"
      and res: "apply_edge_resistance win old_pos new_pos new_rect edges ptr rd tf xdir keyboard_op
             ctx = Inr (v, rd', ctx')"
  shows "timer_inv ptr rd' ctx' \<and> other_sources ptr ctx' = other_sources ptr ctx \<and>
         next_source_id ctx \<le> next_source_id ctx'"
proof (cases "old_pos = new_pos")
  case True
  with res have "rd' = rd" "ctx' = ctx" by (simp_all add: apply_edge_resistance_def)
  then show ?thesis using inv by simp
next
  case False
  obtain rd0 ctx0 where r0: "remove_old_timeout old_pos new_pos rd ctx = (rd0, ctx0)"
    by (cases "remove_old_timeout old_pos new_pos rd ctx") auto
  from remove_old_timeout_timers[OF inv r0]
  have a: "timer_inv ptr rd0 ctx0" "other_sources ptr ctx0 = other_sources ptr ctx"
    "next_source_id ctx \<le> next_source_id ctx0" by simp_all
  from res False r0 obtain b en where
    "apply_edge_resistance_loop win new_pos new_rect edges ptr tf xdir keyboard_op
       (new_pos > old_pos) en b False G_MAXINT rd0 ctx0 = Inr (v, rd', ctx')"
    by (auto simp: apply_edge_resistance_def split: sum.splits)
  from loop_timers[OF a(1) this] a(2,3) show ?thesis by simp
qed


lemma side_data_set_same: "side_data ptr (set_side_data ptr d edge_data) = d"
  by (cases ptr) (simp_all add: side_data_def set_side_data_def)

lemma side_data_set_other:
  "q \<noteq> ptr \<Longrightarrow> side_data q (set_side_data ptr d edge_data) = side_data q edge_data"
  by (cases ptr; cases q) (simp_all add: side_data_def set_side_data_def)

lemma side_edges_set: "side_edges q (set_side_data ptr d edge_data) = side_edges q edge_data"
  by (cases ptr; cases q) (simp_all add: side_edges_def set_side_data_def)

lemma timer_inv_frame:
  assumes q: "timer_inv q rdq ctx" and p: "timer_inv ptr d ctx'" and ne: "q \<noteq> ptr"
      and others: "other_sources ptr ctx' = other_sources ptr ctx"
  shows "timer_inv q rdq ctx'"
proof -
  have mem: "s \<in> set (sources ctx') \<longleftrightarrow> s \<in> set (sources ctx)" if "source_data s \<noteq> ptr" for s
  proof -
    have "s \<in> set (other_sources ptr ctx') \<longleftrightarrow> s \<in> set (other_sources ptr ctx)"
      using others by simp
    then show ?thesis using that by (simp add: other_sources_def)
  qed
  have a: "0 < next_source_id ctx'"
    "\<forall>s\<in>set (sources ctx'). 0 < source_id s \<and> source_id s < next_source_id ctx'"
    "distinct (map source_id (sources ctx'))"
    using p unfolding timer_inv_def by simp_all
  have q3: "\<forall>s\<in>set (sources ctx). source_data s = q \<longrightarrow>
         timeout_setup rdq \<and> timeout_id rdq = source_id s"
    and q4: "timeout_setup rdq \<and> timeout_id rdq \<noteq> 0 \<longrightarrow>
         (\<exists>s\<in>set (sources ctx). source_id s = timeout_id rdq \<and> source_data s = q)"
    using q unfolding timer_inv_def by simp_all
  have b: "\<forall>s\<in>set (sources ctx'). source_data s = q \<longrightarrow>
         timeout_setup rdq \<and> timeout_id rdq = source_id s"
  proof (intro ballI impI)
    fix s assume s: "s \<in> set (sources ctx')" "source_data s = q"
    then have "s \<in> set (sources ctx)" using mem[of s] ne by simp
    then show "timeout_setup rdq \<and> timeout_id rdq = source_id s" using q3 s(2) by simp
  qed
  have c: "timeout_setup rdq \<and> timeout_id rdq \<noteq> 0 \<longrightarrow>
         (\<exists>s\<in>set (sources ctx'). source_id s = timeout_id rdq \<and> source_data s = q)"
  proof
    assume "timeout_setup rdq \<and> timeout_id rdq \<noteq> 0"
    then obtain s where s: "s \<in> set (sources ctx)" "source_id s = timeout_id rdq"
        "source_data s = q" using q4 by auto
    then have "s \<in> set (sources ctx')" using mem[of s] ne by simp
    then show "\<exists>s\<in>set (sources ctx'). source_id s = timeout_id rdq \<and> source_data s = q"
      using s(2,3) by auto
  qed
  show ?thesis unfolding timer_inv_def using a b c by simp
qed

lemma timeout_dispatch_timers:
  assumes inv: "\<forall>ptr. timer_inv ptr (side_data ptr edge_data) ctx"
      and s: "s \<in> set (sources ctx)"
  shows "timer_inv q
           (side_data q (set_side_data (source_data s)
              (edge_resistance_timeout (side_data (source_data s) edge_data)) edge_data))
           (g_source_remove (source_id s) ctx)"
proof -
  let ?p = "source_data s"
  let ?ctx = "g_source_remove (source_id s) ctx"
  have src: "sources ?ctx = filter (\<lambda>x. source_id x \<noteq> source_id s) (sources ctx)"
    and nxt: "next_source_id ?ctx = next_source_id ctx"
    by (simp_all add: g_source_remove_def)
  have ip: "timer_inv ?p (side_data ?p edge_data) ctx" and iq: "timer_inv q (side_data q edge_data) ctx"
    using inv by simp_all
  have i0: "0 < next_source_id ctx"
    and i1: "\<forall>x\<in>set (sources ctx). 0 < source_id x \<and> source_id x < next_source_id ctx"
    and i2: "distinct (map source_id (sources ctx))"
    using ip unfolding timer_inv_def by simp_all
  have uniq: "x = s" if "x \<in> set (sources ctx)" "source_id x = source_id s" for x
    using i2 s that by (simp add: distinct_map inj_on_def)
  have a: "\<forall>x\<in>set (sources ?ctx). 0 < source_id x \<and> source_id x < next_source_id ?ctx"
    unfolding src nxt using i1 by simp
  have b: "distinct (map source_id (sources ?ctx))"
    unfolding src using i2 by (rule distinct_map_filter)
  show ?thesis
  proof (cases "q = ?p")
    case True
    have p3: "\<forall>x\<in>set (sources ctx). source_data x = ?p \<longrightarrow>
         timeout_setup (side_data ?p edge_data) \<and> timeout_id (side_data ?p edge_data) = source_id x"
      using ip unfolding timer_inv_def by simp
    have none: "\<forall>x\<in>set (sources ?ctx). source_data x \<noteq> ?p"
    proof
      fix x assume "x \<in> set (sources ?ctx)"
      then have x: "x \<in> set (sources ctx)" "source_id x \<noteq> source_id s" unfolding src by simp_all
      show "source_data x \<noteq> ?p"
      proof
        assume "source_data x = ?p"
        then have "timeout_id (side_data ?p edge_data) = source_id x" using p3 x(1) by simp
        moreover have "timeout_id (side_data ?p edge_data) = source_id s" using p3 s by simp
        ultimately show False using x(2) by simp
      qed
    qed
    have d: "timeout_id (edge_resistance_timeout (side_data ?p edge_data)) = 0"
      by (simp add: edge_resistance_timeout_def)
    show ?thesis
      unfolding True side_data_set_same timer_inv_def
      using a b none i0 nxt d by simp
  next
    case False
    have q3: "\<forall>x\<in>set (sources ctx). source_data x = q \<longrightarrow>
         timeout_setup (side_data q edge_data) \<and> timeout_id (side_data q edge_data) = source_id x"
      and q4: "timeout_setup (side_data q edge_data) \<and> timeout_id (side_data q edge_data) \<noteq> 0 \<longrightarrow>
         (\<exists>x\<in>set (sources ctx). source_id x = timeout_id (side_data q edge_data) \<and>
             source_data x = q)"
      using iq unfolding timer_inv_def by simp_all
    have c: "\<forall>x\<in>set (sources ?ctx). source_data x = q \<longrightarrow>
         timeout_setup (side_data q edge_data) \<and> timeout_id (side_data q edge_data) = source_id x"
      unfolding src using q3 by auto
    have e: "timeout_setup (side_data q edge_data) \<and> timeout_id (side_data q edge_data) \<noteq> 0 \<longrightarrow>
         (\<exists>x\<in>set (sources ?ctx). source_id x = timeout_id (side_data q edge_data) \<and>
             source_data x = q)"
    proof
      assume "timeout_setup (side_data q edge_data) \<and> timeout_id (side_data q edge_data) \<noteq> 0"
      then obtain x where x: "x \<in> set (sources ctx)"
          "source_id x = timeout_id (side_data q edge_data)" "source_data x = q"
        using q4 by auto
      have "source_id x \<noteq> source_id s"
      proof
        assume "source_id x = source_id s"
        then have "x = s" using uniq x(1) by simp
        then show False using x(3) False by simp
      qed
      then have "x \<in> set (sources ?ctx)" unfolding src using x(1) by simp
      then show "\<exists>x\<in>set (sources ?ctx). source_id x = timeout_id (side_data q edge_data) \<and>
             source_data x = q" using x(2,3) by auto
    qed
    show ?thesis
      unfolding side_data_set_other[OF False] timer_inv_def
      using a b c e i0 nxt by simp
  qed
qed

lemma grab_step_inv:
  assumes inv: "grab_inv st" and step: "grab_step st ev = Inr st1"
  shows "grab_inv st1"
proof -
  obtain edge_data ctx where st: "st = (edge_data, ctx)" by (cases st)
  have all: "\<forall>ptr. timer_inv ptr (side_data ptr edge_data) ctx"
    using inv unfolding st grab_inv_def by simp
  show ?thesis
  proof (cases ev)
    case (Resistance_call ptr win old_pos new_pos new_rect tf xdir keyboard_op)
    from step obtain v d ctx1 where
      r: "apply_edge_resistance win old_pos new_pos new_rect (side_edges ptr edge_data) ptr
            (side_data ptr edge_data) tf xdir keyboard_op ctx = Inr (v, d, ctx1)"
      and st1: "st1 = (set_side_data ptr d edge_data, ctx1)"
      unfolding st Resistance_call grab_step_def by (auto split: sum.splits)
    have ip: "timer_inv ptr (side_data ptr edge_data) ctx" using all by simp
    from apply_edge_resistance_timers[OF ip r]
    have a: "timer_inv ptr d ctx1" "other_sources ptr ctx1 = other_sources ptr ctx" by simp_all
    have "timer_inv q (side_data q (set_side_data ptr d edge_data)) ctx1" for q
    proof (cases "q = ptr")
      case True
      then show ?thesis using a(1) by (simp add: side_data_set_same)
    next
      case False
      have "timer_inv q (side_data q edge_data) ctx" using all by simp
      from timer_inv_frame[OF this a(1) False a(2)]
      show ?thesis by (simp add: side_data_set_other[OF False])
    qed
    then show ?thesis unfolding st1 grab_inv_def by simp
  next
    case (Timeout_dispatch tag)
    show ?thesis
    proof (cases "filter (\<lambda>s. source_id s = tag) (sources ctx)")
      case Nil
      with step have "st1 = st" unfolding st Timeout_dispatch grab_step_def by simp
      then show ?thesis using inv by simp
    next
      case (Cons s ss)
      then have "s \<in> set (filter (\<lambda>s. source_id s = tag) (sources ctx))" by simp
      then have s: "s \<in> set (sources ctx)" "source_id s = tag" by simp_all
      from step Cons have st1: "st1 = (set_side_data (source_data s)
                         (edge_resistance_timeout (side_data (source_data s) edge_data))
                         edge_data, g_source_remove tag ctx)"
        unfolding st Timeout_dispatch grab_step_def by simp
      show ?thesis
        unfolding st1 grab_inv_def using timeout_dispatch_timers[OF all s(1)] s(2) by simp
    qed
  qed
qed

lemma grab_run_inv:
  "grab_inv st \<Longrightarrow> grab_run st events = Inr st1 \<Longrightarrow> grab_inv st1"
proof (induction events arbitrary: st)
  case Nil
  then show ?case by simp
next
  case (Cons ev events)
  from Cons.prems(2) obtain st' where s: "grab_step st ev = Inr st'" "grab_run st' events = Inr st1"
    by (auto split: sum.splits)
  from Cons.IH[OF grab_step_inv[OF Cons.prems(1) s(1)] s(2)] show ?case .
qed

lemma grab_inv_initial:
  assumes "sources ctx0 = []" "0 < next_source_id ctx0"
  shows "grab_inv (initialize_grab_edge_resistance_data display edge_data0, ctx0)"
proof -
  have "timer_inv ptr (side_data ptr (initialize_grab_edge_resistance_data display edge_data0)) ctx0"
    for ptr
    using assms
    by (cases ptr) (simp_all add: timer_inv_def side_data_def initialize_grab_edge_resistance_data_def)
  then show ?thesis by (simp add: grab_inv_def)
qed

lemma stale_timer_cancelled:
  assumes inv: "timer_inv ptr rd ctx" and neq: "old_pos \<noteq> new_pos"
      and tset: "timeout_setup rd"
      and stale: "(old_pos < timeout_edge_pos rd \<and> new_pos < timeout_edge_pos rd) \<or>
                  (timeout_edge_pos rd < old_pos \<and> timeout_edge_pos rd < new_pos)"
  shows "apply_edge_resistance win old_pos new_pos new_rect edges ptr rd tf xdir keyboard_op ctx =
         apply_edge_resistance win old_pos new_pos new_rect edges ptr
           (rd\<lparr>timeout_setup := False, timeout_id := 0\<rparr>) tf xdir keyboard_op
           (g_source_remove (timeout_id rd) ctx) \<and>
         filter (\<lambda>s. source_data s = ptr) (sources (g_source_remove (timeout_id rd) ctx)) = []"
proof -
  let ?rd = "rd\<lparr>timeout_setup := False, timeout_id := 0\<rparr>"
  let ?ctx = "g_source_remove (timeout_id rd) ctx"
  have i1: "\<forall>s\<in>set (sources ctx). 0 < source_id s"
    and i3: "\<forall>s\<in>set (sources ctx). source_data s = ptr \<longrightarrow> timeout_id rd = source_id s"
    using inv unfolding timer_inv_def by simp_all
  have r1: "remove_old_timeout old_pos new_pos rd ctx = (?rd, ?ctx)"
  proof (cases "timeout_id rd = 0")
    case True
    have "filter (\<lambda>s. source_id s \<noteq> 0) (sources ctx) = sources ctx"
      using i1 by (simp add: filter_id_conv)
    then have "g_source_remove 0 ctx = ctx" by (simp add: g_source_remove_def)
    moreover have "rd\<lparr>timeout_setup := False\<rparr> = rd\<lparr>timeout_setup := False, timeout_id := 0\<rparr>"
      using True by simp
    ultimately show ?thesis using True tset stale by (simp add: remove_old_timeout_def)
  next
    case False
    then show ?thesis using tset stale by (simp add: remove_old_timeout_def)
  qed
  have r2: "remove_old_timeout old_pos new_pos ?rd ?ctx = (?rd, ?ctx)"
    by (simp add: remove_old_timeout_def)
  have eq: "apply_edge_resistance win old_pos new_pos new_rect edges ptr rd tf xdir keyboard_op ctx =
         apply_edge_resistance win old_pos new_pos new_rect edges ptr ?rd tf xdir keyboard_op ?ctx"
    unfolding apply_edge_resistance_def r1 r2 using neq by simp
  have "\<forall>s\<in>set (sources ?ctx). source_data s \<noteq> ptr"
    using i3 by (auto simp: g_source_remove_def)
  then have "filter (\<lambda>s. source_data s = ptr) (sources ?ctx) = []"
    by (simp add: filter_empty_conv)
  with eq show ?thesis by simp
qed

text \<open>
  C8 (as amended). A grab starts with the resistance data initialised and no timeout
  source of its own pending. After every sequence of apply_edge_resistance calls (on any
  of the four sides, with any arguments) and timer dispatches that returns, at most one
  timeout source is pending for each side; and in a call with
  \<open>old_pos \<noteq> new_pos\<close> (a call with \<open>old_pos = new_pos\<close> returns at once) while the
  side's timer is set up for an edge position that lies beyond both \<open>old_pos\<close> and
  \<open>new_pos\<close> on the same side of them, the call decides exactly as it does from the
  state in which that timer is cancelled: \<open>timeout_setup\<close> cleared, the source removed
  from the main loop, and no source of the side pending.
\<close>

theorem one_timer_per_side:
  assumes "sources ctx0 = []" and "0 < next_source_id ctx0"
      and "grab_run (initialize_grab_edge_resistance_data display edge_data0, ctx0) events =
             Inr (edge_data, ctx)"
  shows "(\<forall>ptr. length (filter (\<lambda>s. source_data s = ptr) (sources ctx)) \<le> 1) \<and>
         (\<forall>ptr win old_pos new_pos new_rect timeout_fn xdir keyboard_op.
            old_pos \<noteq> new_pos \<and> timeout_setup (side_data ptr edge_data) \<and>
            ((old_pos < timeout_edge_pos (side_data ptr edge_data) \<and>
              new_pos < timeout_edge_pos (side_data ptr edge_data)) \<or>
             (timeout_edge_pos (side_data ptr edge_data) < old_pos \<and>
              timeout_edge_pos (side_data ptr edge_data) < new_pos)) \<longrightarrow>
            apply_edge_resistance win old_pos new_pos new_rect (side_edges ptr edge_data) ptr
              (side_data ptr edge_data) timeout_fn xdir keyboard_op ctx =
            apply_edge_resistance win old_pos new_pos new_rect (side_edges ptr edge_data) ptr
              ((side_data ptr edge_data)\<lparr>timeout_setup := False, timeout_id := 0\<rparr>)
              timeout_fn xdir keyboard_op
              (g_source_remove (timeout_id (side_data ptr edge_data)) ctx) \<and>
            filter (\<lambda>s. source_data s = ptr)
              (sources (g_source_remove (timeout_id (side_data ptr edge_data)) ctx)) = [])"
proof -
  have "grab_inv (edge_data, ctx)"
    using grab_run_inv[OF grab_inv_initial[OF assms(1,2)] assms(3)] .
  then have inv: "timer_inv ptr (side_data ptr edge_data) ctx" for ptr
    by (simp add: grab_inv_def)
  have one: "\<forall>ptr. length (filter (\<lambda>s. source_data s = ptr) (sources ctx)) \<le> 1"
    using timer_inv_at_most_one[OF inv] by simp
  show ?thesis
  proof (rule conjI[OF one], intro allI impI)
    fix ptr win old_pos new_pos new_rect timeout_fn xdir keyboard_op
    assume a: "old_pos \<noteq> new_pos \<and> timeout_setup (side_data ptr edge_data) \<and>
            ((old_pos < timeout_edge_pos (side_data ptr edge_data) \<and>
              new_pos < timeout_edge_pos (side_data ptr edge_data)) \<or>
             (timeout_edge_pos (side_data ptr edge_data) < old_pos \<and>
              timeout_edge_pos (side_data ptr edge_data) < new_pos))"
    then have 1: "old_pos \<noteq> new_pos" and 2: "timeout_setup (side_data ptr edge_data)"
      and 3: "(old_pos < timeout_edge_pos (side_data ptr edge_data) \<and>
              new_pos < timeout_edge_pos (side_data ptr edge_data)) \<or>
             (timeout_edge_pos (side_data ptr edge_data) < old_pos \<and>
              timeout_edge_pos (side_data ptr edge_data) < new_pos)"
      by simp_all
    from stale_timer_cancelled[OF inv 1 2 3]
    show "apply_edge_resistance win old_pos new_pos new_rect (side_edges ptr edge_data) ptr
              (side_data ptr edge_data) timeout_fn xdir keyboard_op ctx =
            apply_edge_resistance win old_pos new_pos new_rect (side_edges ptr edge_data) ptr
              ((side_data ptr edge_data)\<lparr>timeout_setup := False, timeout_id := 0\<rparr>)
              timeout_fn xdir keyboard_op
              (g_source_remove (timeout_id (side_data ptr edge_data)) ctx) \<and>
            filter (\<lambda>s. source_data s = ptr)
              (sources (g_source_remove (timeout_id (side_data ptr edge_data)) ctx)) = []" .
  qed
qed

text \<open>
  A mouse move of the right side into a screen edge sets up one timer; a following move
  from 90 to 50, away from the edge at 100, cancels it and returns 50.
\<close>

theorem one_timer_per_side_witness:
  "sources idle_main_loop = [] \<and> 0 < next_source_id idle_main_loop \<and>
   grab_run (initialize_grab_edge_resistance_data stack_display screen_cache, idle_main_loop)
     [Resistance_call RIGHT_DATA example_window 90 200 (meta_rect 190 0 10 10) 7 True False] =
     Inr armed_state \<and>
   length (filter (\<lambda>s. source_data s = RIGHT_DATA) (sources (snd armed_state))) = 1 \<and>
   apply_edge_resistance example_window 90 50 (meta_rect 40 0 10 10)
     (side_edges RIGHT_DATA (fst armed_state)) RIGHT_DATA (side_data RIGHT_DATA (fst armed_state))
     7 True False (snd armed_state) =
     Inr (50, (side_data RIGHT_DATA (fst armed_state))\<lparr>timeout_setup := False, timeout_id := 0\<rparr>,
          \<lparr>next_source_id = 2, sources = []\<rparr>)"
proof -
  have 1: "sources idle_main_loop = []" by (simp add: idle_main_loop_def)
  have 2: "0 < next_source_id idle_main_loop" by (simp add: idle_main_loop_def)
  have 3: "grab_run (initialize_grab_edge_resistance_data stack_display screen_cache,
      idle_main_loop)
     [Resistance_call RIGHT_DATA example_window 90 200 (meta_rect 190 0 10 10) 7 True False] =
     Inr (fst armed_state, snd armed_state)"
    by code_simp
  note t = one_timer_per_side[OF 1 2 3]
  have 4: "length (filter (\<lambda>s. source_data s = RIGHT_DATA) (sources (snd armed_state))) = 1"
    by (simp add: armed_state_def)
  have 5: "apply_edge_resistance example_window 90 50 (meta_rect 40 0 10 10)
     (side_edges RIGHT_DATA (fst armed_state)) RIGHT_DATA (side_data RIGHT_DATA (fst armed_state))
     7 True False (snd armed_state) =
     Inr (50, (side_data RIGHT_DATA (fst armed_state))\<lparr>timeout_setup := False, timeout_id := 0\<rparr>,
          \<lparr>next_source_id = 2, sources = []\<rparr>)"
    by code_simp
  show ?thesis using t 1 2 3 4 5 by simp
qed

text \<open>
  The claim as stated has the stale timer cancelled in every call. In the state of the grab
  above, with the timer of the right side set up for the edge at 100 and its source
  pending, a call with \<open>old_pos = new_pos = 50\<close> returns at
  \<^verbatim>\<open>if (old_pos == new_pos) return new_pos;\<close>, before the removal of the old timeout: 100
  lies beyond both positions, and the timer is still set up and its source still pending.
\<close>

theorem stale_timer_kept_by_still_call_counterexample:
  "grab_run (initialize_grab_edge_resistance_data stack_display screen_cache, idle_main_loop)
     [Resistance_call RIGHT_DATA example_window 90 200 (meta_rect 190 0 10 10) 7 True False] =
     Inr armed_state \<and>
   timeout_setup (side_data RIGHT_DATA (fst armed_state)) \<and>
   timeout_edge_pos (side_data RIGHT_DATA (fst armed_state)) = 100 \<and>
   timeout_id (side_data RIGHT_DATA (fst armed_state)) = 1 \<and>
   apply_edge_resistance example_window 50 50 (meta_rect 40 0 10 10)
     (side_edges RIGHT_DATA (fst armed_state)) RIGHT_DATA (side_data RIGHT_DATA (fst armed_state))
     7 True False (snd armed_state) =
     Inr (50, side_data RIGHT_DATA (fst armed_state), snd armed_state) \<and>
   sources (snd armed_state) =
     [\<lparr>source_id = 1, source_interval = 750, source_data = RIGHT_DATA\<rparr>]"
proof -
  have 1: "grab_run (initialize_grab_edge_resistance_data stack_display screen_cache,
      idle_main_loop)
     [Resistance_call RIGHT_DATA example_window 90 200 (meta_rect 190 0 10 10) 7 True False] =
     Inr armed_state"
    by code_simp
  have 2: "apply_edge_resistance example_window 50 50 (meta_rect 40 0 10 10)
     (side_edges RIGHT_DATA (fst armed_state)) RIGHT_DATA (side_data RIGHT_DATA (fst armed_state))
     7 True False (snd armed_state) =
     Inr (50, side_data RIGHT_DATA (fst armed_state), snd armed_state)"
    by (simp add: apply_edge_resistance_def)
  show ?thesis using 1 2 by (simp add: armed_state_def side_data_def)
qed

end
